theory Spec2Isabelle
  imports Main "HOL-Library.Word" "HOL-Library.Code_Target_Nat"
begin

section \<open>JavaScript values\<close>

text \<open>
  The values an options object, a cursor and a record attribute can hold: the JSON-like
  part of JavaScript plus \<open>undefined\<close> and \<open>NaN\<close>. The type keeps to the values this
  development can render exactly: a number held in a value is a 54-bit signed integer
  (from \<open>-2^53\<close> to \<open>2^53 - 1\<close>, all of them exact doubles whose decimal rendering
  has neither exponent nor fraction), and a character of a string is a UTF-16 code unit
  below 256. Symbols, functions and objects with a \<open>toString\<close> of their own are not
  values of the type, so converting a value to a string cannot throw.
\<close>

datatype jsval =
    JUndefined
  | JNull
  | JBool bool
  | JNum "54 word"
  | JNaN
  | JStr string
  | JArray "jsval list"
  | JObject "(string \<times> jsval) list"

text \<open>\<open>!val\<close> is true exactly on the falsy values.\<close>

fun truthy :: "jsval \<Rightarrow> bool" where
  "truthy JUndefined = False"
| "truthy JNull = False"
| "truthy (JBool b) = b"
| "truthy (JNum n) = (n \<noteq> 0)"
| "truthy JNaN = False"
| "truthy (JStr s) = (s \<noteq> [])"
| "truthy (JArray xs) = True"
| "truthy (JObject kvs) = True"

fun isArray :: "jsval \<Rightarrow> bool" where
  "isArray (JArray xs) = True"
| "isArray v = False"

subsection \<open>\<open>String(v)\<close>\<close>

definition digit_char :: "nat \<Rightarrow> char" where
  "digit_char d = char_of (48 + d)"

fun digits :: "nat \<Rightarrow> string" where
  "digits n = (if n < 10 then [digit_char n] else digits (n div 10) @ [digit_char (n mod 10)])"

declare digits.simps [simp del]

text \<open>
  The rendering of a number held in a value: its decimal digits after a minus sign when it
  is negative. The 54 bits keep it below \<open>10^21\<close>, where the rendering turns to an
  exponent.
\<close>

definition show_int :: "54 word \<Rightarrow> string" where
  "show_int n = (if sint n < 0 then CHR ''-'' # digits (nat (- sint n)) else digits (nat (sint n)))"

fun join_comma :: "string list \<Rightarrow> string" where
  "join_comma [] = []"
| "join_comma [s] = s"
| "join_comma (s # t # ss) = s @ CHR '','' # join_comma (t # ss)"

text \<open>
  \<open>Array.prototype.join\<close> renders \<open>undefined\<close> and \<open>null\<close> elements as the empty string;
  a plain object renders as \<open>[object Object]\<close>.
\<close>

fun ToString :: "jsval \<Rightarrow> string" where
  "ToString JUndefined = ''undefined''"
| "ToString JNull = ''null''"
| "ToString (JBool b) = (if b then ''true'' else ''false'')"
| "ToString (JNum n) = show_int n"
| "ToString JNaN = ''NaN''"
| "ToString (JStr s) = s"
| "ToString (JArray xs) =
     join_comma (map (\<lambda>x. if x = JUndefined \<or> x = JNull then [] else ToString x) xs)"
| "ToString (JObject kvs) = ''[object Object]''"

subsection \<open>Numbers that \<open>parseInt\<close> returns\<close>

text \<open>
  \<open>parseInt\<close> returns \<open>NaN\<close> or a double without fraction: a finite integer, negative
  zero, or an infinity when the digits exceed the range of doubles. \<open>NaN\<close> is \<open>None\<close>
  below.
\<close>

datatype number = Finite int | NegZero | PosInfinity | NegInfinity

fun bitlen :: "nat \<Rightarrow> nat" where
  "bitlen n = (if n = 0 then 0 else Suc (bitlen (n div 2)))"

declare bitlen.simps [simp del]

text \<open>Rounding to a multiple of \<open>2^e\<close>, to the nearest and to the even one on a tie.\<close>

definition round_even :: "nat \<Rightarrow> nat \<Rightarrow> nat" where
  "round_even e n =
     (let q = n div 2 ^ e; r = n mod 2 ^ e
      in (if 2 ^ e < 2 * r \<or> (2 * r = 2 ^ e \<and> odd q) then q + 1 else q) * 2 ^ e)"

text \<open>
  The double nearest to a natural number: 53 significant bits are kept, and what rounds
  to \<open>2^1024\<close> or more is infinite, here \<open>None\<close>.
\<close>

definition to_double :: "nat \<Rightarrow> nat option" where
  "to_double n =
     (let m = round_even (bitlen n - 53) n
      in if 2 ^ 1024 \<le> m then None else Some m)"

subsection \<open>\<open>parseInt(v, 10)\<close>\<close>

text \<open>
  The white space among the code units below 256: tab, line feed, vertical tab, form feed,
  carriage return, space and the no-break space.
\<close>

definition is_ws :: "char \<Rightarrow> bool" where
  "is_ws c = ((of_char c :: nat) \<in> set [9, 10, 11, 12, 13, 32, 160])"

definition is_digit :: "char \<Rightarrow> bool" where
  "is_digit c = (48 \<le> (of_char c :: nat) \<and> (of_char c :: nat) \<le> 57)"

definition digit_val :: "char \<Rightarrow> nat" where
  "digit_val c = of_char c - 48"

definition digits_val :: "string \<Rightarrow> nat" where
  "digits_val Z = foldl (\<lambda>a c. 10 * a + digit_val c) 0 Z"

text \<open>
  \<open>parseInt\<close> with radix 10: skip leading white space, read an optional sign, then the
  longest run of decimal digits; no digit gives \<open>NaN\<close>. Whatever follows the digits is
  ignored. The digits denote an integer, the result is the double nearest to it, and a
  zero after a minus sign is negative zero.
\<close>

definition parseInt_str :: "string \<Rightarrow> number option" where
  "parseInt_str inputString =
     (let S = dropWhile is_ws inputString;
          neg = (S \<noteq> [] \<and> hd S = CHR ''-'');
          S' = (if S \<noteq> [] \<and> (hd S = CHR ''+'' \<or> hd S = CHR ''-'') then tl S else S);
          Z = takeWhile is_digit S'
      in if Z = [] then None
         else Some (case to_double (digits_val Z) of
                      None \<Rightarrow> if neg then NegInfinity else PosInfinity
                    | Some m \<Rightarrow>
                        if neg then (if m = 0 then NegZero else Finite (- int m))
                        else Finite (int m)))"

definition parseInt :: "jsval \<Rightarrow> number option" where
  "parseInt v = parseInt_str (ToString v)"

section \<open>Limit normalization\<close>

definition DEFAULT_LIMIT :: number where
  "DEFAULT_LIMIT = Finite 10"

definition ensurePositiveIntWithDefault :: "jsval \<Rightarrow> number \<Rightarrow> number" where
  "ensurePositiveIntWithDefault val def =
     (if \<not> truthy val then def
      else case parseInt val of None \<Rightarrow> def | Some v \<Rightarrow> v)"

section \<open>Errors\<close>

text \<open>
  The source raises plain \<open>Error\<close> objects told apart by their message; the constructors
  carry the names the specification gives them.
  \<^item> \<open>InvalidCursorInput\<close>: \<open>ensureArray\<close>, "... is not an array";
  \<^item> \<open>UnsupportedSortTarget\<close>: "sorting by joined table not supported by cursor paging yet";
  \<^item> \<open>CursorSortMismatch\<close>: "sort/cursor mismatch";
  \<^item> \<open>CountUnavailable\<close>: named by the specification only, no statement of the source raises it;
  \<^item> \<open>TypeError\<close>: the runtime's own error (calling \<open>split\<close> on a value that is not a
    string, destructuring \<open>undefined\<close>).
\<close>

datatype error =
    InvalidCursorInput
  | UnsupportedSortTarget
  | CursorSortMismatch
  | CountUnavailable
  | TypeError

section \<open>The query builder\<close>

text \<open>
  A query builder is the list \<open>_statements\<close> and the limit held in \<open>_single\<close>. A
  statement is an object with a \<open>type\<close>, a \<open>grouping\<close>, a \<open>value\<close> and, for an
  ordering, a \<open>direction\<close>: \<open>Stmt type grouping value direction\<close>, the direction \<open>None\<close>
  when the object has none. The group pushed by \<open>orWhere(function () {...})\<close> has a
  callback for its value, recorded here by the \<open>andWhere(column, operator, value)\<close> calls
  the callback makes, in order; \<open>countDistinct(column)\<close> pushes an aggregate in the
  grouping \<open>columns\<close>.
\<close>

datatype where_clause = WhereBasic string string jsval

datatype statement =
    Stmt string string string "string option"
  | WhereWrapped "where_clause list"
  | CountDistinct string

fun stype :: "statement \<Rightarrow> string" where
  "stype (Stmt t g v d) = t"
| "stype (WhereWrapped ws) = ''whereWrapped''"
| "stype (CountDistinct c) = ''aggregate''"

fun grouping :: "statement \<Rightarrow> string" where
  "grouping (Stmt t g v d) = g"
| "grouping (WhereWrapped ws) = ''where''"
| "grouping (CountDistinct c) = ''columns''"

text \<open>The \<open>value\<close> of a statement when it is a string, \<open>None\<close> when it is a callback.\<close>

fun svalue :: "statement \<Rightarrow> string option" where
  "svalue (Stmt t g v d) = Some v"
| "svalue (WhereWrapped ws) = None"
| "svalue (CountDistinct c) = Some c"

fun sdirection :: "statement \<Rightarrow> string option" where
  "sdirection (Stmt t g v d) = d"
| "sdirection (WhereWrapped ws) = None"
| "sdirection (CountDistinct c) = None"

record query_builder =
  statements :: "statement list"
  single_limit :: "number option"

text \<open>
  The builder's methods, as far as the source calls them. \<open>orderBy\<close> with one argument
  leaves the direction undefined, which the builder renders as ascending. \<open>clone\<close>
  copies the statement list, so a clone shares nothing with its original.
\<close>

definition clone :: "query_builder \<Rightarrow> query_builder" where
  "clone qb = qb"

definition qb_orderBy :: "query_builder \<Rightarrow> string \<Rightarrow> query_builder" where
  "qb_orderBy qb column = qb\<lparr>statements := statements qb @ [Stmt ''orderByBasic'' ''order'' column None]\<rparr>"

definition qb_orWhere :: "query_builder \<Rightarrow> where_clause list \<Rightarrow> query_builder" where
  "qb_orWhere qb ws = qb\<lparr>statements := statements qb @ [WhereWrapped ws]\<rparr>"

definition qb_countDistinct :: "query_builder \<Rightarrow> string \<Rightarrow> query_builder" where
  "qb_countDistinct qb column = qb\<lparr>statements := statements qb @ [CountDistinct column]\<rparr>"

definition qb_limit :: "query_builder \<Rightarrow> number \<Rightarrow> query_builder" where
  "qb_limit qb n = qb\<lparr>single_limit := Some n\<rparr>"

section \<open>Cursors and sort columns\<close>

datatype cursor_type = After | Before

record cursor =
  ctype :: cursor_type
  columnValues :: "jsval list"

text \<open>
  A sort column is the ordering statement with \<open>value\<close> replaced by \<open>name\<close>; of the
  fields copied along only \<open>direction\<close> is ever read.
\<close>

record sorted_column =
  name :: string
  direction :: "string option"

text \<open>\<open>reverseSign\<close> is a lookup in a table with the two keys \<open>>\<close> and \<open><\<close>.\<close>

datatype sign = Gt | Lt

fun reverseSign :: "sign \<Rightarrow> sign" where
  "reverseSign Gt = Lt"
| "reverseSign Lt = Gt"

fun sign_str :: "sign \<Rightarrow> string" where
  "sign_str Gt = ''>''"
| "sign_str Lt = ''<''"

text \<open>\<open>xs[i]\<close> is \<open>undefined\<close> out of range.\<close>

definition nth_js :: "jsval list \<Rightarrow> nat \<Rightarrow> jsval" where
  "nth_js xs i = (if i < length xs then xs ! i else JUndefined)"

text \<open>\<open>value.split('.')\<close>: always at least one piece.\<close>

fun split_dot :: "string \<Rightarrow> string list" where
  "split_dot [] = [[]]"
| "split_dot (c # cs) =
     (if c = CHR ''.'' then [] # split_dot cs
      else case split_dot cs of [] \<Rightarrow> [[c]] | p # ps \<Rightarrow> (c # p) # ps)"

text \<open>
  The callback of \<open>sortedColumns\<close>: \<open>[tableName, colName] = value.split('.')\<close> takes the
  first two pieces and drops the rest.
\<close>

definition sortColumn :: "string \<Rightarrow> statement \<Rightarrow> error + sorted_column" where
  "sortColumn mainTableName s =
     (case svalue s of
        None \<Rightarrow> Inl TypeError
      | Some v \<Rightarrow>
          (case split_dot v of
             [] \<Rightarrow> Inl TypeError
           | [tableName] \<Rightarrow> Inr \<lparr>name = tableName, direction = sdirection s\<rparr>
           | tableName # colName # rest \<Rightarrow>
               if tableName \<noteq> mainTableName then Inl UnsupportedSortTarget
               else Inr \<lparr>name = colName, direction = sdirection s\<rparr>))"

text \<open>\<open>Array.prototype.map\<close> with a callback that may throw: the first throw ends it.\<close>

fun map_err :: "('a \<Rightarrow> error + 'b) \<Rightarrow> 'a list \<Rightarrow> error + 'b list" where
  "map_err f [] = Inr []"
| "map_err f (x # xs) =
     (case f x of
        Inl e \<Rightarrow> Inl e
      | Inr y \<Rightarrow> (case map_err f xs of Inl e \<Rightarrow> Inl e | Inr ys \<Rightarrow> Inr (y # ys)))"

definition orderByBasics :: "query_builder \<Rightarrow> statement list" where
  "orderByBasics qb = filter (\<lambda>s. stype s = ''orderByBasic'') (statements qb)"

definition sortedColumns :: "query_builder \<Rightarrow> string \<Rightarrow> error + sorted_column list" where
  "sortedColumns qb mainTableName = map_err (sortColumn mainTableName) (orderByBasics qb)"

section \<open>The predicate builder\<close>

definition column_sign :: "cursor \<Rightarrow> sorted_column \<Rightarrow> sign" where
  "column_sign c col =
     (let sign = Gt;
          sign1 = (if ctype c = Before then reverseSign sign else sign);
          sign2 = (if direction col = Some ''DESC'' then reverseSign sign1 else sign1)
      in sign2)"

text \<open>The group one call of \<open>buildWhere\<close> passes to \<open>orWhere\<close>.\<close>

definition whereGroup :: "cursor \<Rightarrow> sorted_column \<Rightarrow> sorted_column list \<Rightarrow> where_clause list" where
  "whereGroup c currentCol visitedCols =
     map (\<lambda>(visitedCol, idx). WhereBasic (name visitedCol) ''='' (nth_js (columnValues c) idx))
         (zip visitedCols [0..<length visitedCols])
     @ [WhereBasic (name currentCol) (sign_str (column_sign c currentCol))
          (nth_js (columnValues c) (length visitedCols))]"

fun buildWhere ::
  "cursor \<Rightarrow> query_builder \<Rightarrow> sorted_column \<Rightarrow> sorted_column list \<Rightarrow> sorted_column list
     \<Rightarrow> query_builder" where
  "buildWhere c qb currentCol [] visitedCols = qb_orWhere qb (whereGroup c currentCol visitedCols)"
| "buildWhere c qb currentCol (nextCol # remainingCols) visitedCols =
     buildWhere c (qb_orWhere qb (whereGroup c currentCol visitedCols))
       nextCol remainingCols (visitedCols @ [currentCol])"

text \<open>"We implicitly sort by ID asc": the ordering added when no \<open>orderByBasic\<close> is there.\<close>

definition implicitSort :: "query_builder \<Rightarrow> string \<Rightarrow> string \<Rightarrow> query_builder" where
  "implicitSort qb mainTableName idAttribute =
     (let isNotSorted = (length (orderByBasics qb) = 0)
      in if isNotSorted then qb_orderBy qb (mainTableName @ ''.'' @ idAttribute) else qb)"

text \<open>
  \<open>applyCursor\<close> changes the builder it is given and may throw after having changed it:
  the result is the builder as left behind, with the error or the sort columns that
  \<open>extractCursors\<close> closes over.
\<close>

definition applyCursor ::
  "query_builder \<Rightarrow> cursor option \<Rightarrow> string \<Rightarrow> string
     \<Rightarrow> query_builder \<times> (error + sorted_column list)" where
  "applyCursor qb cur mainTableName idAttribute =
     (let qb1 = implicitSort qb mainTableName idAttribute
      in case sortedColumns qb1 mainTableName of
           Inl e \<Rightarrow> (qb1, Inl e)
         | Inr cols \<Rightarrow>
             (case cur of
                None \<Rightarrow> (qb1, Inr cols)
              | Some c \<Rightarrow>
                  if length cols \<noteq> length (columnValues c) then (qb1, Inl CursorSortMismatch)
                  else (case cols of
                          [] \<Rightarrow> (qb1, Inl TypeError)
                        | col # rest \<Rightarrow> (buildWhere c qb1 col rest [], Inr cols))))"

section \<open>Reading cursors off a page\<close>

text \<open>
  A fetched record is its attributes; \<open>model.get(name)\<close> reads one, \<open>undefined\<close> when
  there is none. A collection is the list of its models.
\<close>

type_synonym model = "(string \<times> jsval) list"

definition get :: "model \<Rightarrow> string \<Rightarrow> jsval" where
  "get m k = (case map_of m k of None \<Rightarrow> JUndefined | Some v \<Rightarrow> v)"

definition Object_keys :: "model \<Rightarrow> string list" where
  "Object_keys m = remdups (map fst m)"

record cursors =
  after :: "jsval list option"
  before :: "jsval list option"

definition model2cursor :: "sorted_column list \<Rightarrow> model \<Rightarrow> jsval list" where
  "model2cursor cols m = map (\<lambda>col. get m (name col)) cols"

definition extractCursors :: "sorted_column list \<Rightarrow> model list \<Rightarrow> cursors" where
  "extractCursors cols coll =
     (if length coll = 0 then \<lparr>after = None, before = None\<rparr>
      else \<lparr>after = Some (model2cursor cols (coll ! (length coll - 1))),
            before = Some (model2cursor cols (coll ! 0))\<rparr>)"

section \<open>The row counter\<close>

definition notNeededQueries :: "string list" where
  "notNeededQueries = [''orderByBasic'', ''orderByRaw'', ''groupByBasic'', ''groupByRaw'']"

text \<open>The builder the callback of \<open>counter.query\<close> leaves behind.\<close>

definition count_query :: "query_builder \<Rightarrow> string \<Rightarrow> string \<Rightarrow> query_builder" where
  "count_query self_query tableName idAttribute =
     (let qb = clone self_query;
          qb1 = qb\<lparr>statements :=
                  filter (\<lambda>statement. \<not> (stype statement \<in> set notNeededQueries
                                            \<or> grouping statement = ''columns''))
                         (statements qb)\<rparr>
      in qb_countDistinct qb1 (tableName @ ''.'' @ idAttribute))"

text \<open>
  The \<open>rowCount\<close> of the metadata: never assigned, so that it reads \<open>undefined\<close>, or
  what \<open>parseInt\<close> returned, \<open>NaN\<close> included.
\<close>

datatype row_count = NoRowCount | RowCount "number option"

record metadata =
  limit :: number
  rowCount :: row_count

text \<open>The handler of the count's result, \<open>None\<close> for a falsy result.\<close>

definition count_then :: "model list option \<Rightarrow> number \<Rightarrow> metadata" where
  "count_then result lim =
     (let metadata = \<lparr>limit = lim, rowCount = NoRowCount\<rparr>
      in case result of
           None \<Rightarrow> metadata
         | Some models \<Rightarrow>
             if length models = 1 then
               (let modelsCount = models ! 0;
                    keys = Object_keys modelsCount
                in if length keys = 1
                   then metadata\<lparr>rowCount := RowCount (parseInt (get modelsCount (keys ! 0)))\<rparr>
                   else metadata)
             else metadata)"

definition count ::
  "(query_builder \<Rightarrow> model list option) \<Rightarrow> query_builder \<Rightarrow> string \<Rightarrow> string \<Rightarrow> number
     \<Rightarrow> metadata" where
  "count fetchAll self_query tableName idAttribute lim =
     count_then (fetchAll (count_query self_query tableName idAttribute)) lim"

section \<open>The orchestrator\<close>

type_synonym options = "string \<rightharpoonup> jsval"

definition ensureArray :: "jsval \<Rightarrow> error + unit" where
  "ensureArray val = (if \<not> isArray val then Inl InvalidCursorInput else Inr ())"

fun elements :: "jsval \<Rightarrow> jsval list" where
  "elements (JArray xs) = xs"
| "elements v = []"

text \<open>The cursor of \<open>fetchCursorPage\<close>; \<open>'after' in options\<close> asks for the key only.\<close>

definition decodeCursor :: "options \<Rightarrow> error + cursor option" where
  "decodeCursor opts =
     (case opts ''after'' of
        Some a \<Rightarrow>
          (case ensureArray a of
             Inl e \<Rightarrow> Inl e
           | Inr u \<Rightarrow> Inr (Some \<lparr>ctype = After, columnValues = elements a\<rparr>))
      | None \<Rightarrow>
          (case opts ''before'' of
             Some b \<Rightarrow>
               (case ensureArray b of
                  Inl e \<Rightarrow> Inl e
                | Inr u \<Rightarrow> Inr (Some \<lparr>ctype = Before, columnValues = elements b\<rparr>))
           | None \<Rightarrow> Inr None))"

text \<open>\<open>Model.prototype\<close>: the table name and the identity attribute, which may be missing.\<close>

record model_proto =
  proto_tableName :: string
  proto_idAttribute :: "string option"

definition resolve_idAttribute :: "model_proto \<Rightarrow> string" where
  "resolve_idAttribute M =
     (case proto_idAttribute M of
        None \<Rightarrow> ''id''
      | Some a \<Rightarrow> if a \<noteq> [] then a else ''id'')"

definition option_limit :: "options \<Rightarrow> jsval" where
  "option_limit opts = (case opts ''limit'' of None \<Rightarrow> JUndefined | Some v \<Rightarrow> v)"

text \<open>The callback of \<open>pager.query\<close>: a clone of the base query, the cursor, the limit.\<close>

definition page_query ::
  "query_builder \<Rightarrow> cursor option \<Rightarrow> string \<Rightarrow> string \<Rightarrow> number
     \<Rightarrow> query_builder \<times> (error + sorted_column list)" where
  "page_query self_query cur tableName idAttribute lim =
     (case applyCursor (clone self_query) cur tableName idAttribute of
        (qb, Inl e) \<Rightarrow> (qb, Inl e)
      | (qb, Inr cols) \<Rightarrow> (qb_limit qb lim, Inr cols))"

record pagination = metadata +
  cursors :: cursors

record page =
  models :: "model list"
  pagination :: pagination

text \<open>
  What the caller passes as \<open>collection\<close>: \<open>Collection.prototype.fetchCursorPage\<close> passes
  the collection itself, the very object it passes as \<open>self\<close>;
  \<open>Model.prototype.fetchCursorPage\<close> passes a function that would make a collection, and a
  function has no \<open>query\<close> method to call.
\<close>

datatype pager = PagerCollection | PagerFunction

text \<open>
  The object passed as \<open>self\<close>, as far as this module touches it, is the query builder it
  holds, none after a reset. \<open>self.query()\<close> hands out that builder and, when there is
  none, makes a fresh one for the table, without any statement.
\<close>

definition fresh_builder :: query_builder where
  "fresh_builder = \<lparr>statements = [], single_limit = None\<rparr>"

definition query_of :: "query_builder option \<Rightarrow> query_builder" where
  "query_of knex = (case knex of None \<Rightarrow> fresh_builder | Some qb \<Rightarrow> qb)"

text \<open>
  \<open>paginate\<close> on the collection that is \<open>self\<close>: \<open>pager.query\<close> runs the callback on the
  builder the object holds, and \<open>fetch\<close> hands that builder to the engine and resets the
  object's query, as the host library does when it starts a fetch. The first component is
  the builder the object holds afterwards: the changed one when the callback threw, none
  after the fetch.
\<close>

definition paginate ::
  "(query_builder \<Rightarrow> options \<Rightarrow> model list) \<Rightarrow> query_builder option \<Rightarrow> cursor option
     \<Rightarrow> string \<Rightarrow> string \<Rightarrow> number \<Rightarrow> options
     \<Rightarrow> query_builder option \<times> (error + model list \<times> sorted_column list)" where
  "paginate fetch knex cur tableName idAttribute lim fetchOptions =
     (case page_query (query_of knex) cur tableName idAttribute lim of
        (qb, Inl e) \<Rightarrow> (Some qb, Inl e)
      | (qb, Inr cols) \<Rightarrow> (None, Inr (fetch qb fetchOptions, cols)))"

text \<open>
  \<open>fetchCursorPage\<close> on an object holding the base query \<open>self_query\<close>, with the two
  executions of the host engine as parameters: \<open>fetch\<close> runs the page query with the
  remaining options, \<open>fetchAll\<close> runs the count query. \<open>paginate()\<close> is evaluated before
  \<open>count(...)\<close>, so \<open>count\<close> clones what \<open>self.query()\<close> returns after the page was
  requested. \<open>pageCount\<close>, a floating-point quotient rounded up, is left out of the
  result.
\<close>

definition fetchCursorPage ::
  "(query_builder \<Rightarrow> options \<Rightarrow> model list) \<Rightarrow> (query_builder \<Rightarrow> model list option)
     \<Rightarrow> query_builder \<Rightarrow> pager \<Rightarrow> model_proto \<Rightarrow> options \<Rightarrow> error + page" where
  "fetchCursorPage fetch fetchAll self_query collection M opts =
     (let fetchOptions = opts(''limit'' := None)
      in case decodeCursor opts of
           Inl e \<Rightarrow> Inl e
         | Inr cur \<Rightarrow>
             (let lim = ensurePositiveIntWithDefault (option_limit opts) DEFAULT_LIMIT;
                  tableName = proto_tableName M;
                  idAttribute = resolve_idAttribute M
              in case collection of
                   PagerFunction \<Rightarrow> Inl TypeError
                 | PagerCollection \<Rightarrow>
                     (case paginate fetch (Some self_query) cur tableName idAttribute lim
                             fetchOptions of
                        (knex, Inl e) \<Rightarrow> Inl e
                      | (knex, Inr (coll, cols)) \<Rightarrow>
                          (let cs = extractCursors cols coll;
                               md = count fetchAll (query_of knex) tableName idAttribute lim
                           in Inr \<lparr>models = coll,
                                   pagination = \<lparr>limit = limit md, rowCount = rowCount md,
                                                 cursors = cs\<rparr>\<rparr>))))"

section \<open>The predicate as the specification words it\<close>

text \<open>
  The sign starts as \<open>>\<close>, is flipped for a \<open>before\<close> cursor and flipped again for a
  column sorted \<open>DESC\<close>; term \<open>i\<close> says that the columns before \<open>i\<close> equal their cursor
  values and column \<open>i\<close> relates to its own by the sign.
\<close>

definition spec_sign :: "cursor_type \<Rightarrow> string option \<Rightarrow> string" where
  "spec_sign t d = (if (t = Before) \<noteq> (d = Some ''DESC'') then ''<'' else ''>'')"

definition spec_term :: "cursor \<Rightarrow> sorted_column list \<Rightarrow> nat \<Rightarrow> statement" where
  "spec_term c cols i =
     WhereWrapped
       (map (\<lambda>j. WhereBasic (name (cols ! j)) ''='' (columnValues c ! j)) [0..<i]
        @ [WhereBasic (name (cols ! i)) (spec_sign (ctype c) (direction (cols ! i)))
             (columnValues c ! i)])"

definition spec_predicate :: "cursor \<Rightarrow> sorted_column list \<Rightarrow> statement list" where
  "spec_predicate c cols = map (spec_term c cols) [0..<length cols]"

section \<open>Decimal rendering and \<open>parseInt\<close>\<close>

lemma digit_char_is_digit: "d < 10 \<Longrightarrow> is_digit (digit_char d)"
  by (simp add: is_digit_def digit_char_def)

lemma digit_val_digit_char: "d < 10 \<Longrightarrow> digit_val (digit_char d) = d"
  by (simp add: digit_val_def digit_char_def)

lemma digits_all_digit: "\<forall>c \<in> set (digits n). is_digit c"
proof (induction n rule: digits.induct)
  case (1 n)
  show ?case
  proof (cases "n < 10")
    case True
    then show ?thesis by (simp add: digits.simps [of n] digit_char_is_digit)
  next
    case False
    with 1 show ?thesis by (simp add: digits.simps [of n] digit_char_is_digit)
  qed
qed

lemma digits_nonempty: "digits n \<noteq> []"
  by (subst digits.simps) simp

lemma digits_val_snoc: "digits_val (Z @ [c]) = 10 * digits_val Z + digit_val c"
  by (simp add: digits_val_def)

lemma digits_val_digits: "digits_val (digits n) = n"
proof (induction n rule: digits.induct)
  case (1 n)
  show ?case
  proof (cases "n < 10")
    case True
    then show ?thesis by (simp add: digits.simps [of n] digits_val_def digit_val_digit_char)
  next
    case False
    with 1 show ?thesis
      by (simp add: digits.simps [of n] digits_val_snoc digit_val_digit_char)
  qed
qed

lemma is_digit_not_special: "is_digit c \<Longrightarrow> \<not> is_ws c \<and> c \<noteq> CHR ''-'' \<and> c \<noteq> CHR ''+''"
  by (auto simp: is_digit_def is_ws_def)

lemma bitlen_le: "n < 2 ^ k \<Longrightarrow> bitlen n \<le> k"
proof (induction k arbitrary: n)
  case 0
  then show ?case by (simp add: bitlen.simps [of 0])
next
  case (Suc k)
  then have "n div 2 < 2 ^ k" by simp
  then have "bitlen (n div 2) \<le> k" by (rule Suc.IH)
  then show ?case by (simp add: bitlen.simps [of n])
qed

lemma round_even_0: "round_even 0 n = n"
  by (simp add: round_even_def)

text \<open>Up to \<open>2^53\<close> every natural number is its own double.\<close>

lemma to_double_exact: "n \<le> 2 ^ 53 \<Longrightarrow> to_double n = Some n"
proof (cases "n = 2 ^ 53")
  case True
  have "bitlen ((2::nat) ^ 53) = 54" by (simp add: bitlen.simps)
  then show ?thesis using True by (simp add: to_double_def round_even_def)
next
  case False
  assume "n \<le> 2 ^ 53"
  with False have lt: "n < 2 ^ 53" by simp
  then have "bitlen n - 53 = 0" using bitlen_le [of n 53] by simp
  moreover have "n < 2 ^ 1024"
    using lt power_strict_increasing [of 53 1024 "2::nat"] by simp
  ultimately show ?thesis by (simp add: to_double_def round_even_0)
qed

lemma parseInt_str_digits:
  assumes "n \<le> 2 ^ 53"
  shows "parseInt_str (digits n) = Some (Finite (int n))"
proof -
  obtain c cs where dc: "digits n = c # cs" using digits_nonempty [of n] by (cases "digits n") auto
  have all: "\<forall>x \<in> set (c # cs). is_digit x" using digits_all_digit [of n] dc by simp
  then have c: "is_digit c" by simp
  have tw: "takeWhile is_digit (c # cs) = c # cs" using all by (simp del: takeWhile.simps)
  have dv: "digits_val (c # cs) = n" using digits_val_digits [of n] dc by simp
  have "parseInt_str (c # cs) = Some (Finite (int n))"
    using is_digit_not_special [OF c] to_double_exact [OF assms]
    by (simp add: parseInt_str_def Let_def tw dv del: takeWhile.simps)
  then show ?thesis using dc by simp
qed

lemma parseInt_str_neg_digits:
  assumes "0 < n" and "n \<le> 2 ^ 53"
  shows "parseInt_str (CHR ''-'' # digits n) = Some (Finite (- int n))"
proof -
  have all: "\<forall>x \<in> set (digits n). is_digit x" using digits_all_digit [of n] by simp
  have tw: "takeWhile is_digit (digits n) = digits n" using all by simp
  have nws: "\<not> is_ws CHR ''-''" by (simp add: is_ws_def)
  show ?thesis using nws digits_nonempty [of n] assms(1) to_double_exact [OF assms(2)]
    by (simp add: parseInt_str_def Let_def tw digits_val_digits)
qed

text \<open>\<open>parseInt\<close> of a number held in a value is that number.\<close>

lemma parseInt_JNum: "parseInt (JNum w) = Some (Finite (sint w))"
proof (cases "sint w < 0")
  case True
  have "- (2 ^ 53) \<le> sint w" using sint_ge [of w] by simp
  then have "nat (- sint w) \<le> 2 ^ 53" by simp
  moreover have "0 < nat (- sint w)" using True by simp
  ultimately have "parseInt_str (CHR ''-'' # digits (nat (- sint w))) = Some (Finite (- int (nat (- sint w))))"
    by (rule parseInt_str_neg_digits [rotated])
  then show ?thesis using True by (simp add: parseInt_def show_int_def)
next
  case False
  have "sint w < 2 ^ 53" using sint_lt [of w] by simp
  then have "nat (sint w) \<le> 2 ^ 53" by simp
  then have "parseInt_str (digits (nat (sint w))) = Some (Finite (int (nat (sint w))))"
    by (rule parseInt_str_digits)
  then show ?thesis using False by (simp add: parseInt_def show_int_def)
qed

lemma ensure_JNum:
  "ensurePositiveIntWithDefault (JNum w) def = (if w = 0 then def else Finite (sint w))"
  by (simp add: ensurePositiveIntWithDefault_def parseInt_JNum)

text \<open>
  Beyond \<open>2^53\<close> the digits are rounded to the nearest double, the no-break space is white
  space, and a zero after a minus sign is negative.
\<close>

lemmas parseInt_eval =
  parseInt_def parseInt_str_def is_ws_def is_digit_def digits_val_def digit_val_def
  to_double_def round_even_def bitlen.simps Let_def

lemma parseInt_rounds_to_double:
  "parseInt (JStr ''9007199254740993'') = Some (Finite 9007199254740992)"
  by (simp add: parseInt_eval)

lemma parseInt_skips_no_break_space:
  "parseInt (JStr (char_of (160::nat) # ''42'')) = Some (Finite 42)"
  by (simp add: parseInt_eval)

lemma parseInt_negative_zero: "parseInt (JStr ''-0'') = Some NegZero"
  by (simp add: parseInt_eval)

section \<open>The applied limit\<close>



lemma ensure_numeric:
  "truthy v \<Longrightarrow> parseInt v = Some n \<Longrightarrow> ensurePositiveIntWithDefault v def = n"
  by (simp add: ensurePositiveIntWithDefault_def)



lemma page_query_error:
  "snd (page_query q cur t i lim) = Inl e \<longleftrightarrow> snd (applyCursor (clone q) cur t i) = Inl e"
  by (auto simp: page_query_def split: prod.splits sum.splits)

lemma page_query_limit:
  "page_query q cur t i lim = (qb, Inr cols) \<Longrightarrow> single_limit qb = Some lim"
  by (auto simp: page_query_def qb_limit_def split: prod.splits sum.splits)

lemma fetchCursorPage_error:
  "fetchCursorPage fetch fetchAll q pg M opts = Inl e \<longleftrightarrow>
     decodeCursor opts = Inl e \<or>
     (\<exists>cur. decodeCursor opts = Inr cur \<and>
        (case pg of
           PagerFunction \<Rightarrow> e = TypeError
         | PagerCollection \<Rightarrow>
             snd (applyCursor (clone q) cur (proto_tableName M) (resolve_idAttribute M)) = Inl e))"
  by (auto simp: fetchCursorPage_def Let_def paginate_def query_of_def page_query_def
           split: prod.splits sum.splits pager.splits)

lemma fetchCursorPage_PagerFunction:
  "fetchCursorPage fetch fetchAll q PagerFunction M opts =
     (case decodeCursor opts of Inl e \<Rightarrow> Inl e | Inr cur \<Rightarrow> Inl TypeError)"
  by (simp add: fetchCursorPage_def Let_def split: sum.splits)

lemma fetchCursorPage_limit:
  "fetchCursorPage fetch fetchAll q pg M opts = Inr p \<Longrightarrow>
     limit (pagination p) = ensurePositiveIntWithDefault (option_limit opts) DEFAULT_LIMIT"
  by (auto simp: fetchCursorPage_def Let_def paginate_def count_def count_then_def
           split: pager.splits prod.splits sum.splits option.splits if_splits)




lemma fetchCursorPage_page:
  "fetchCursorPage fetch fetchAll q pg M opts = Inr p \<Longrightarrow>
     \<exists>cur qb cols. decodeCursor opts = Inr cur
       \<and> page_query q cur (proto_tableName M) (resolve_idAttribute M)
            (ensurePositiveIntWithDefault (option_limit opts) DEFAULT_LIMIT) = (qb, Inr cols)
       \<and> models p = fetch qb (opts(''limit'' := None))
       \<and> cursors (pagination p) = extractCursors cols (models p)"
  by (auto simp: fetchCursorPage_def Let_def paginate_def query_of_def
           split: pager.splits prod.splits sum.splits)

text \<open>
  Claim C10, as amended. Positivity is not enforced: a truthy limit whose \<open>parseInt\<close> is a
  number is applied as that number, to the page query that is fetched and in the limit
  reported, so every negative number passes through (\<open>-5\<close> is applied as \<open>-5\<close>), while
  \<open>0\<close>, being falsy, falls back to 10. The applied limit is a positive integer only when
  \<open>parseInt\<close> of the input is that positive integer or the default was taken.
\<close>

theorem limit_positivity_not_enforced:
  "(truthy v \<and> parseInt v = Some n \<longrightarrow> ensurePositiveIntWithDefault v DEFAULT_LIMIT = n)
   \<and> (sint k < 0 \<longrightarrow> ensurePositiveIntWithDefault (JNum k) DEFAULT_LIMIT = Finite (sint k))
   \<and> ensurePositiveIntWithDefault (JNum (- 5)) DEFAULT_LIMIT = Finite (- 5)
   \<and> ensurePositiveIntWithDefault (JNum 0) DEFAULT_LIMIT = Finite 10
   \<and> (ensurePositiveIntWithDefault v DEFAULT_LIMIT = Finite m \<and> 0 < m \<longrightarrow>
        (truthy v \<and> parseInt v = Some (Finite m))
        \<or> ((\<not> truthy v \<or> parseInt v = None) \<and> m = 10))
   \<and> (option_limit opts = v \<and> truthy v \<and> parseInt v = Some n \<and> decodeCursor opts = Inr cur
        \<and> page_query q cur (proto_tableName M) (resolve_idAttribute M)
             (ensurePositiveIntWithDefault v DEFAULT_LIMIT) = (qb, Inr cols)
        \<longrightarrow> single_limit qb = Some n)
   \<and> (option_limit opts = v \<and> truthy v \<and> parseInt v = Some n
        \<and> fetchCursorPage fetch fetchAll q pg M opts = Inr p
        \<longrightarrow> limit (pagination p) = n
            \<and> (\<exists>cur' qb' cols'. decodeCursor opts = Inr cur'
                  \<and> page_query q cur' (proto_tableName M) (resolve_idAttribute M) n = (qb', Inr cols')
                  \<and> single_limit qb' = Some n
                  \<and> models p = fetch qb' (opts(''limit'' := None))))"
proof -
  have a: "truthy v \<and> parseInt v = Some n \<longrightarrow> ensurePositiveIntWithDefault v DEFAULT_LIMIT = n"
    by (simp add: ensure_numeric)
  have b: "sint k < 0 \<longrightarrow> ensurePositiveIntWithDefault (JNum k) DEFAULT_LIMIT = Finite (sint k)"
    by (auto simp: ensure_JNum)
  have c: "ensurePositiveIntWithDefault (JNum (- 5)) DEFAULT_LIMIT = Finite (- 5)"
    by (simp add: ensure_JNum)
  have d: "ensurePositiveIntWithDefault (JNum 0) DEFAULT_LIMIT = Finite 10"
    by (simp add: ensure_JNum DEFAULT_LIMIT_def)
  have e: "ensurePositiveIntWithDefault v DEFAULT_LIMIT = Finite m \<and> 0 < m \<longrightarrow>
        (truthy v \<and> parseInt v = Some (Finite m))
        \<or> ((\<not> truthy v \<or> parseInt v = None) \<and> m = 10)"
    by (auto simp: ensurePositiveIntWithDefault_def DEFAULT_LIMIT_def split: option.splits)
  have f: "option_limit opts = v \<and> truthy v \<and> parseInt v = Some n \<and> decodeCursor opts = Inr cur
        \<and> page_query q cur (proto_tableName M) (resolve_idAttribute M)
             (ensurePositiveIntWithDefault v DEFAULT_LIMIT) = (qb, Inr cols)
        \<longrightarrow> single_limit qb = Some n"
  proof (intro impI, elim conjE)
    assume t: "truthy v" and pv: "parseInt v = Some n"
      and pq: "page_query q cur (proto_tableName M) (resolve_idAttribute M)
             (ensurePositiveIntWithDefault v DEFAULT_LIMIT) = (qb, Inr cols)"
    have "single_limit qb = Some (ensurePositiveIntWithDefault v DEFAULT_LIMIT)"
      using pq by (rule page_query_limit)
    then show "single_limit qb = Some n" using t pv by (simp add: ensure_numeric)
  qed
  have g: "option_limit opts = v \<and> truthy v \<and> parseInt v = Some n
        \<and> fetchCursorPage fetch fetchAll q pg M opts = Inr p
        \<longrightarrow> limit (pagination p) = n
            \<and> (\<exists>cur' qb' cols'. decodeCursor opts = Inr cur'
                  \<and> page_query q cur' (proto_tableName M) (resolve_idAttribute M) n = (qb', Inr cols')
                  \<and> single_limit qb' = Some n
                  \<and> models p = fetch qb' (opts(''limit'' := None)))"
  proof (intro impI, elim conjE)
    assume ol: "option_limit opts = v" and t: "truthy v" and pv: "parseInt v = Some n"
      and fp: "fetchCursorPage fetch fetchAll q pg M opts = Inr p"
    have en: "ensurePositiveIntWithDefault (option_limit opts) DEFAULT_LIMIT = n"
      using ol t pv by (simp add: ensure_numeric)
    have l: "limit (pagination p) = n"
      using fetchCursorPage_limit [OF fp] en by simp
    obtain cur' qb' cols' where dc: "decodeCursor opts = Inr cur'"
      and pq: "page_query q cur' (proto_tableName M) (resolve_idAttribute M) n = (qb', Inr cols')"
      and mp: "models p = fetch qb' (opts(''limit'' := None))"
      using fetchCursorPage_page [OF fp] en by auto
    have sl: "single_limit qb' = Some n" using pq by (rule page_query_limit)
    from l dc pq sl mp
    show "limit (pagination p) = n
            \<and> (\<exists>cur' qb' cols'. decodeCursor opts = Inr cur'
                  \<and> page_query q cur' (proto_tableName M) (resolve_idAttribute M) n = (qb', Inr cols')
                  \<and> single_limit qb' = Some n
                  \<and> models p = fetch qb' (opts(''limit'' := None)))"
      by blast
  qed
  from a b c d e f g show ?thesis by (intro conjI)
qed

theorem limit_positivity_not_enforced_witness:
  "ensurePositiveIntWithDefault (JStr ''-7 rows'') DEFAULT_LIMIT = Finite (- 7)
   \<and> ensurePositiveIntWithDefault (JNum (- 3)) DEFAULT_LIMIT = Finite (- 3)
   \<and> single_limit
        (fst (page_query \<lparr>statements = [], single_limit = None\<rparr> None ''cars'' ''id''
               (ensurePositiveIntWithDefault (JNum (- 5)) DEFAULT_LIMIT)))
      = Some (Finite (- 5))"
proof -
  let ?q = "\<lparr>statements = [], single_limit = None\<rparr>"
  let ?M = "\<lparr>proto_tableName = ''cars'', proto_idAttribute = None\<rparr>"
  let ?opts = "[''limit'' \<mapsto> JNum (- 5)]"
  let ?qb = "\<lparr>statements = [Stmt ''orderByBasic'' ''order'' ''cars.id'' None],
             single_limit = Some (ensurePositiveIntWithDefault (JNum (- 5)) DEFAULT_LIMIT)\<rparr>"
  have h1: "truthy (JStr ''-7 rows'') \<and> parseInt (JStr ''-7 rows'') = Some (Finite (- 7))"
    by (simp add: parseInt_eval)
  have h2: "sint (- 3 :: 54 word) < 0" by simp
  have a: "ensurePositiveIntWithDefault (JStr ''-7 rows'') DEFAULT_LIMIT = Finite (- 7)"
    using limit_positivity_not_enforced [where v = "JStr ''-7 rows''" and n = "Finite (- 7)",
        THEN conjunct1, THEN mp, OF h1] .
  have b: "ensurePositiveIntWithDefault (JNum (- 3)) DEFAULT_LIMIT = Finite (sint (- 3 :: 54 word))"
    using limit_positivity_not_enforced [where k = "- 3",
        THEN conjunct2, THEN conjunct1, THEN mp, OF h2] .
  have pq: "page_query ?q None (proto_tableName ?M) (resolve_idAttribute ?M)
              (ensurePositiveIntWithDefault (JNum (- 5)) DEFAULT_LIMIT)
            = (?qb, Inr [\<lparr>name = ''id'', direction = None\<rparr>])"
    by (simp add: page_query_def clone_def applyCursor_def implicitSort_def orderByBasics_def
          qb_orderBy_def sortedColumns_def sortColumn_def qb_limit_def resolve_idAttribute_def)
  have h3: "option_limit ?opts = JNum (- 5) \<and> truthy (JNum (- 5))
        \<and> parseInt (JNum (- 5)) = Some (Finite (- 5)) \<and> decodeCursor ?opts = Inr None
        \<and> page_query ?q None (proto_tableName ?M) (resolve_idAttribute ?M)
             (ensurePositiveIntWithDefault (JNum (- 5)) DEFAULT_LIMIT)
           = (?qb, Inr [\<lparr>name = ''id'', direction = None\<rparr>])"
    using pq by (simp add: option_limit_def parseInt_JNum decodeCursor_def)
  have c: "single_limit ?qb = Some (Finite (- 5))"
    using limit_positivity_not_enforced [where v = "JNum (- 5)" and n = "Finite (- 5)"
        and opts = ?opts and cur = None and q = ?q and M = ?M and qb = ?qb
        and cols = "[\<lparr>name = ''id'', direction = None\<rparr>]",
        THEN conjunct2, THEN conjunct2, THEN conjunct2, THEN conjunct2, THEN conjunct2,
        THEN conjunct1, THEN mp, OF h3] .
  have pq': "page_query ?q None ''cars'' ''id''
               (ensurePositiveIntWithDefault (JNum (- 5)) DEFAULT_LIMIT)
             = (?qb, Inr [\<lparr>name = ''id'', direction = None\<rparr>])"
    using pq by (simp add: resolve_idAttribute_def)
  from a b c show ?thesis unfolding pq' by simp
qed

theorem limit_text_suffix_counterexample:
  "ensurePositiveIntWithDefault (JStr ''7 rows'') DEFAULT_LIMIT = Finite 7
   \<and> Finite 7 \<noteq> DEFAULT_LIMIT
   \<and> JStr ''7 rows'' \<noteq> JNum 7 \<and> JStr ''7 rows'' \<noteq> JStr ''7''"
  by (simp add: ensurePositiveIntWithDefault_def parseInt_eval DEFAULT_LIMIT_def)

section \<open>Sort normalization and the predicate\<close>

lemma map_err_length: "map_err f xs = Inr ys \<Longrightarrow> length ys = length xs"
  by (induction xs arbitrary: ys) (auto split: sum.splits)

lemma map_err_Inl: "map_err f xs = Inl e \<Longrightarrow> \<exists>x \<in> set xs. f x = Inl e"
  by (induction xs) (auto split: sum.splits)

lemma map_err_fails: "x \<in> set xs \<Longrightarrow> f x = Inl e \<Longrightarrow> \<exists>e'. map_err f xs = Inl e'"
  by (induction xs) (auto split: sum.splits)

lemma map_err_Inr: "(\<And>x. x \<in> set xs \<Longrightarrow> f x = Inr (g x)) \<Longrightarrow> map_err f xs = Inr (map g xs)"
  by (induction xs) auto

lemma split_dot_nonempty: "split_dot v \<noteq> []"
  by (induction v) (auto split: list.splits)

lemma split_dot_no_dot: "CHR ''.'' \<notin> set v \<Longrightarrow> split_dot v = [v]"
  by (induction v) auto

lemma split_dot_qualified:
  "CHR ''.'' \<notin> set t \<Longrightarrow> split_dot (t @ CHR ''.'' # c) = t # split_dot c"
  by (induction t) auto

lemma orderByBasic_is_Stmt:
  "stype s = ''orderByBasic'' \<Longrightarrow> \<exists>g v d. s = Stmt ''orderByBasic'' g v d"
  by (cases s) auto

lemma sortColumn_error:
  "stype s = ''orderByBasic'' \<Longrightarrow> sortColumn m s = Inl e \<Longrightarrow> e = UnsupportedSortTarget"
  by (cases s) (auto simp: sortColumn_def split_dot_nonempty split: list.splits if_splits)

lemma sortedColumns_error: "sortedColumns qb m = Inl e \<Longrightarrow> e = UnsupportedSortTarget"
proof -
  assume "sortedColumns qb m = Inl e"
  then obtain s where "s \<in> set (orderByBasics qb)" and "sortColumn m s = Inl e"
    unfolding sortedColumns_def using map_err_Inl by fastforce
  then show ?thesis using sortColumn_error [of s m e] by (simp add: orderByBasics_def)
qed

lemma orderByBasics_implicitSort: "orderByBasics (implicitSort qb m i) \<noteq> []"
  by (simp add: implicitSort_def orderByBasics_def qb_orderBy_def Let_def)

lemma implicitSort_sorted: "orderByBasics qb \<noteq> [] \<Longrightarrow> implicitSort qb m i = qb"
  by (simp add: implicitSort_def Let_def)

lemma implicitSort_unsorted:
  "orderByBasics qb = [] \<Longrightarrow>
     implicitSort qb m i = qb\<lparr>statements := statements qb @ [Stmt ''orderByBasic'' ''order'' (m @ ''.'' @ i) None]\<rparr>"
  by (simp add: implicitSort_def Let_def qb_orderBy_def)

lemma sortedColumns_nonempty: "sortedColumns (implicitSort qb m i) m = Inr cols \<Longrightarrow> cols \<noteq> []"
  using map_err_length [of "sortColumn m" "orderByBasics (implicitSort qb m i)" cols]
    orderByBasics_implicitSort [of qb m i]
  by (auto simp: sortedColumns_def)

lemma buildWhere_eq:
  "buildWhere c qb col rest visited =
     qb\<lparr>statements := statements qb @
          map (\<lambda>i. WhereWrapped (whereGroup c ((visited @ col # rest) ! i) (take i (visited @ col # rest))))
              [length visited ..< Suc (length visited + length rest)]\<rparr>"
proof (induction rest arbitrary: qb col visited)
  case Nil
  show ?case by (simp add: qb_orWhere_def nth_append)
next
  case (Cons n r)
  have "[length visited ..< Suc (length visited + length (n # r))]
          = length visited # [Suc (length visited) ..< Suc (Suc (length visited) + length r)]"
    by (subst upt_rec) simp
  then show ?case
    using Cons.IH [of "qb_orWhere qb (whereGroup c col visited)" n "visited @ [col]"]
    by (simp add: qb_orWhere_def nth_append)
qed

lemma column_sign_spec: "sign_str (column_sign c col) = spec_sign (ctype c) (direction col)"
  by (cases "ctype c") (auto simp: column_sign_def spec_sign_def)

lemma whereGroup_spec:
  assumes "i < length cols" "i < length (columnValues c)"
  shows "WhereWrapped (whereGroup c (cols ! i) (take i cols)) = spec_term c cols i"
proof -
  have "map (\<lambda>(visitedCol, idx). WhereBasic (name visitedCol) ''='' (nth_js (columnValues c) idx))
            (zip (take i cols) [0..<length (take i cols)])
        = map (\<lambda>j. WhereBasic (name (cols ! j)) ''='' (columnValues c ! j)) [0..<i]"
    using assms by (intro nth_equalityI) (auto simp: nth_js_def)
  then show ?thesis
    using assms by (simp add: whereGroup_def spec_term_def column_sign_spec nth_js_def)
qed

lemma buildWhere_spec:
  assumes "length (columnValues c) = length (col # rest)"
  shows "buildWhere c qb col rest [] =
           qb\<lparr>statements := statements qb @ spec_predicate c (col # rest)\<rparr>"
proof -
  have "map (\<lambda>i. WhereWrapped (whereGroup c ((col # rest) ! i) (take i (col # rest))))
            [0 ..< Suc (length rest)]
        = map (spec_term c (col # rest)) [0 ..< Suc (length rest)]"
    using assms whereGroup_spec [of _ "col # rest" c] by (intro map_cong) auto
  then show ?thesis
    using buildWhere_eq [of c qb col rest "[]"] by (simp add: spec_predicate_def)
qed

lemma applyCursor_with_cursor:
  assumes "sortedColumns (implicitSort qb m i) m = Inr cols"
    and "length (columnValues c) = length cols"
  shows "applyCursor qb (Some c) m i =
           ((implicitSort qb m i)\<lparr>statements := statements (implicitSort qb m i) @ spec_predicate c cols\<rparr>,
            Inr cols)"
proof -
  obtain col rest where cols: "cols = col # rest"
    using sortedColumns_nonempty [OF assms(1)] by (cases cols) auto
  show ?thesis
    using assms buildWhere_spec [of c col rest "implicitSort qb m i"]
    by (simp add: applyCursor_def Let_def cols)
qed

lemma applyCursor_mismatch:
  assumes "sortedColumns (implicitSort qb m i) m = Inr cols"
    and "length (columnValues c) \<noteq> length cols"
  shows "applyCursor qb (Some c) m i = (implicitSort qb m i, Inl CursorSortMismatch)"
  using assms by (auto simp: applyCursor_def Let_def)

lemma applyCursor_no_cursor:
  "applyCursor qb None m i = (implicitSort qb m i, sortedColumns (implicitSort qb m i) m)"
  by (auto simp: applyCursor_def Let_def split: sum.splits)

lemma applyCursor_sort_error:
  "sortedColumns (implicitSort qb m i) m = Inl e \<Longrightarrow>
     applyCursor qb cur m i = (implicitSort qb m i, Inl e)"
  by (simp add: applyCursor_def Let_def)

lemma sortColumn_unqualified:
  "CHR ''.'' \<notin> set v \<Longrightarrow> sortColumn m (Stmt t g v d) = Inr \<lparr>name = v, direction = d\<rparr>"
  by (simp add: sortColumn_def split_dot_no_dot)

lemma sortColumn_foreign:
  "CHR ''.'' \<notin> set t \<Longrightarrow> t \<noteq> m \<Longrightarrow>
     sortColumn m (Stmt ty g (t @ ''.'' @ col) d) = Inl UnsupportedSortTarget"
  using split_dot_nonempty [of col]
  by (cases "split_dot col") (simp_all add: sortColumn_def split_dot_qualified)

lemma sortColumn_main:
  "CHR ''.'' \<notin> set m \<Longrightarrow>
     sortColumn m (Stmt ty g (m @ ''.'' @ col) d) = Inr \<lparr>name = hd (split_dot col), direction = d\<rparr>"
  using split_dot_nonempty [of col]
  by (cases "split_dot col") (simp_all add: sortColumn_def split_dot_qualified)

lemma sortedColumns_foreign:
  assumes "Stmt ''orderByBasic'' g (t @ ''.'' @ col) d \<in> set (statements qb)"
    and "CHR ''.'' \<notin> set t" and "t \<noteq> m"
  shows "sortedColumns qb m = Inl UnsupportedSortTarget"
proof -
  have "Stmt ''orderByBasic'' g (t @ ''.'' @ col) d \<in> set (orderByBasics qb)"
    using assms(1) by (simp add: orderByBasics_def)
  moreover have "sortColumn m (Stmt ''orderByBasic'' g (t @ ''.'' @ col) d) = Inl UnsupportedSortTarget"
    using assms(2,3) by (rule sortColumn_foreign)
  ultimately have "\<exists>e. map_err (sortColumn m) (orderByBasics qb) = Inl e"
    by (rule map_err_fails)
  then obtain e where "sortedColumns qb m = Inl e"
    unfolding sortedColumns_def by blast
  then show ?thesis using sortedColumns_error by blast
qed

lemma applyCursor_foreign:
  assumes "Stmt ''orderByBasic'' g (t @ ''.'' @ col) d \<in> set (statements qb)"
    and "CHR ''.'' \<notin> set t" and "t \<noteq> m"
  shows "applyCursor qb cur m i = (qb, Inl UnsupportedSortTarget)"
proof -
  have "orderByBasics qb \<noteq> []"
  proof -
    have "stype (Stmt ''orderByBasic'' g (t @ ''.'' @ col) d) = ''orderByBasic''" by simp
    with assms(1) have "Stmt ''orderByBasic'' g (t @ ''.'' @ col) d \<in> set (orderByBasics qb)"
      unfolding orderByBasics_def by (simp del: stype.simps)
    then show ?thesis by auto
  qed
  then have "implicitSort qb m i = qb" by (rule implicitSort_sorted)
  then show ?thesis
    using applyCursor_sort_error [of qb m i UnsupportedSortTarget cur]
      sortedColumns_foreign [OF assms] by simp
qed

lemma sortedColumns_accepts:
  assumes "\<forall>s \<in> set (orderByBasics qb). \<exists>v. svalue s = Some v \<and>
             (CHR ''.'' \<notin> set v \<or> (\<exists>col. v = m @ ''.'' @ col \<and> CHR ''.'' \<notin> set m))"
  shows "\<exists>cols. sortedColumns qb m = Inr cols \<and> length cols = length (orderByBasics qb)"
proof -
  have "\<exists>r. sortColumn m s = Inr r" if "s \<in> set (orderByBasics qb)" for s
  proof -
    from that obtain g v d where s: "s = Stmt ''orderByBasic'' g v d"
      using orderByBasic_is_Stmt [of s] by (auto simp: orderByBasics_def)
    from that assms s have "CHR ''.'' \<notin> set v \<or> (\<exists>col. v = m @ ''.'' @ col \<and> CHR ''.'' \<notin> set m)"
      by fastforce
    then show ?thesis
      using sortColumn_unqualified [of v m] sortColumn_main [of m] s by auto
  qed
  then have "\<not> (\<exists>e. sortedColumns qb m = Inl e)"
    unfolding sortedColumns_def using map_err_Inl [of "sortColumn m" "orderByBasics qb"] by fastforce
  then obtain cols where "sortedColumns qb m = Inr cols"
    by (cases "sortedColumns qb m") auto
  then show ?thesis using map_err_length [of "sortColumn m" "orderByBasics qb" cols]
    by (simp add: sortedColumns_def)
qed

lemma implicit_sort_by_identity:
  assumes "orderByBasics qb = []" and "CHR ''.'' \<notin> set m" and "CHR ''.'' \<notin> set i"
  shows "applyCursor qb None m i =
           (qb\<lparr>statements := statements qb @ [Stmt ''orderByBasic'' ''order'' (m @ ''.'' @ i) None]\<rparr>,
            Inr [\<lparr>name = i, direction = None\<rparr>])"
proof -
  have ob: "orderByBasics (qb\<lparr>statements := statements qb @ [Stmt ''orderByBasic'' ''order'' (m @ ''.'' @ i) None]\<rparr>)
          = [Stmt ''orderByBasic'' ''order'' (m @ ''.'' @ i) None]"
    using assms(1) by (simp add: orderByBasics_def)
  have "hd (split_dot i) = i" using assms(3) by (simp add: split_dot_no_dot)
  then show ?thesis
    using assms(2) ob sortColumn_main [of m "''orderByBasic''" "''order''" i None]
    by (simp add: applyCursor_no_cursor implicitSort_unsorted [OF assms(1)] sortedColumns_def)
qed

lemma resolve_idAttribute_default:
  "proto_idAttribute M = None \<Longrightarrow> resolve_idAttribute M = ''id''"
  by (simp add: resolve_idAttribute_def)

lemma implicitSort_no_where:
  "WhereWrapped w \<in> set (statements (implicitSort qb m i)) \<Longrightarrow> WhereWrapped w \<in> set (statements qb)"
  by (auto simp: implicitSort_def Let_def qb_orderBy_def split: if_splits)

lemma extractCursors_nonempty:
  "coll \<noteq> [] \<Longrightarrow>
     extractCursors cols coll =
       \<lparr>after = Some (map (\<lambda>col. get (last coll) (name col)) cols),
        before = Some (map (\<lambda>col. get (hd coll) (name col)) cols)\<rparr>"
  by (simp add: extractCursors_def model2cursor_def last_conv_nth hd_conv_nth)

lemma extractCursors_empty: "extractCursors cols [] = \<lparr>after = None, before = None\<rparr>"
  by (simp add: extractCursors_def)

section \<open>The claims about cursors and sorting\<close>

text \<open>
  Claim C1. For a cursor and the normalized sort columns of the same length,
  \<open>applyCursor\<close> appends to the page query exactly the groups of \<open>spec_predicate\<close>, one per
  position \<open>i\<close> and joined by OR: the columns before \<open>i\<close> equal their cursor values and
  column \<open>i\<close> relates to its value by the sign, which starts as greater-than, is flipped
  for a \<open>before\<close> cursor and flipped again for a \<open>DESC\<close> column.
\<close>

theorem keyset_predicate:
  assumes "sortedColumns (implicitSort qb mainTableName idAttribute) mainTableName = Inr cols"
    and "length (columnValues c) = length cols"
  shows "applyCursor qb (Some c) mainTableName idAttribute =
           ((implicitSort qb mainTableName idAttribute)
              \<lparr>statements := statements (implicitSort qb mainTableName idAttribute)
                               @ spec_predicate c cols\<rparr>,
            Inr cols)"
  using assms by (rule applyCursor_with_cursor)

theorem keyset_predicate_witness:
  "applyCursor
     \<lparr>statements = [Stmt ''orderByBasic'' ''order'' ''cars.colA'' (Some ''ASC''),
                    Stmt ''orderByBasic'' ''order'' ''colB'' (Some ''DESC'')],
      single_limit = None\<rparr>
     (Some \<lparr>ctype = After, columnValues = [JNum 3, JStr ''x'']\<rparr>) ''cars'' ''id''
   = (\<lparr>statements = [Stmt ''orderByBasic'' ''order'' ''cars.colA'' (Some ''ASC''),
                      Stmt ''orderByBasic'' ''order'' ''colB'' (Some ''DESC''),
                      WhereWrapped [WhereBasic ''colA'' ''>'' (JNum 3)],
                      WhereWrapped [WhereBasic ''colA'' ''='' (JNum 3),
                                    WhereBasic ''colB'' ''<'' (JStr ''x'')]],
        single_limit = None\<rparr>,
      Inr [\<lparr>name = ''colA'', direction = Some ''ASC''\<rparr>,
           \<lparr>name = ''colB'', direction = Some ''DESC''\<rparr>])"
proof -
  let ?qb = "\<lparr>statements = [Stmt ''orderByBasic'' ''order'' ''cars.colA'' (Some ''ASC''),
                    Stmt ''orderByBasic'' ''order'' ''colB'' (Some ''DESC'')],
      single_limit = None\<rparr>"
  let ?c = "\<lparr>ctype = After, columnValues = [JNum 3, JStr ''x'']\<rparr>"
  let ?cols = "[\<lparr>name = ''colA'', direction = Some ''ASC''\<rparr>,
           \<lparr>name = ''colB'', direction = Some ''DESC''\<rparr>]"
  have s: "implicitSort ?qb ''cars'' ''id'' = ?qb"
    by (simp add: implicitSort_def orderByBasics_def)
  have h1: "sortedColumns (implicitSort ?qb ''cars'' ''id'') ''cars'' = Inr ?cols"
    by (simp add: s sortedColumns_def orderByBasics_def sortColumn_def)
  have h2: "length (columnValues ?c) = length ?cols" by simp
  have p: "spec_predicate ?c ?cols =
             [WhereWrapped [WhereBasic ''colA'' ''>'' (JNum 3)],
              WhereWrapped [WhereBasic ''colA'' ''='' (JNum 3),
                            WhereBasic ''colB'' ''<'' (JStr ''x'')]]"
    by (simp add: spec_predicate_def spec_term_def spec_sign_def upt_rec)
  show ?thesis using keyset_predicate [OF h1 h2] by (simp add: s p)
qed

text \<open>
  Claim C5, at a table name with a schema prefix. With no ordering on the query the
  ordering on \<open>public.users.id\<close> is added, but reading it back splits it at the first
  dots into table \<open>public\<close> and column \<open>users\<close>, and normalization fails as for a joined
  table: the identity column does not become the sort column.
\<close>

theorem implicit_sort_schema_qualified_table:
  "applyCursor \<lparr>statements = [], single_limit = None\<rparr> None ''public.users'' ''id''
     = (\<lparr>statements = [Stmt ''orderByBasic'' ''order'' ''public.users.id'' None],
          single_limit = None\<rparr>,
        Inl UnsupportedSortTarget)
   \<and> fetchCursorPage fetch fetchAll \<lparr>statements = [], single_limit = None\<rparr>
        PagerCollection \<lparr>proto_tableName = ''public.users'', proto_idAttribute = None\<rparr> Map.empty
     = Inl UnsupportedSortTarget"
  by (simp add: applyCursor_def implicitSort_def orderByBasics_def qb_orderBy_def
        sortedColumns_def sortColumn_def fetchCursorPage_def decodeCursor_def paginate_def
        query_of_def page_query_def
        clone_def resolve_idAttribute_def)

text \<open>
  How a clause is read: it is qualified when it reads \<open>t.col\<close>, the qualifier \<open>t\<close> being
  the text before the first dot, and unqualified when it holds no dot. A qualifier other
  than the primary table makes \<open>applyCursor\<close> fail with \<open>UnsupportedSortTarget\<close>, the
  builder left as it was, and \<open>fetchCursorPage\<close> fail before any query runs. When the
  primary table's name holds no dot, clauses that are unqualified or qualified with it are
  accepted, one sort column per clause.
\<close>

lemma sort_clause_qualifier:
  "(Stmt ''orderByBasic'' g (t @ ''.'' @ col) d \<in> set (statements qb)
      \<and> CHR ''.'' \<notin> set t \<and> t \<noteq> mainTableName
      \<longrightarrow> applyCursor qb cur mainTableName idAttribute = (qb, Inl UnsupportedSortTarget)
          \<and> (proto_tableName M = mainTableName \<and> decodeCursor opts = Inr cur
               \<longrightarrow> fetchCursorPage fetch fetchAll qb PagerCollection M opts = Inl UnsupportedSortTarget))
   \<and> ((\<forall>s \<in> set (orderByBasics qb). \<exists>v. svalue s = Some v \<and>
           (CHR ''.'' \<notin> set v
            \<or> (\<exists>col. v = mainTableName @ ''.'' @ col \<and> CHR ''.'' \<notin> set mainTableName)))
      \<longrightarrow> (\<exists>cols. sortedColumns qb mainTableName = Inr cols
                   \<and> length cols = length (orderByBasics qb)))
   \<and> (CHR ''.'' \<notin> set v
      \<longrightarrow> sortColumn mainTableName (Stmt ty g v d) = Inr \<lparr>name = v, direction = d\<rparr>)
   \<and> (CHR ''.'' \<notin> set mainTableName \<and> CHR ''.'' \<notin> set col
      \<longrightarrow> sortColumn mainTableName (Stmt ty g (mainTableName @ ''.'' @ col) d)
            = Inr \<lparr>name = col, direction = d\<rparr>)"
proof -
  have a: "applyCursor qb cur mainTableName idAttribute = (qb, Inl UnsupportedSortTarget)
          \<and> (proto_tableName M = mainTableName \<and> decodeCursor opts = Inr cur
               \<longrightarrow> fetchCursorPage fetch fetchAll qb PagerCollection M opts = Inl UnsupportedSortTarget)"
    if "Stmt ''orderByBasic'' g (t @ ''.'' @ col) d \<in> set (statements qb)"
      and "CHR ''.'' \<notin> set t" and "t \<noteq> mainTableName"
  proof -
    have "applyCursor qb cur' mainTableName i = (qb, Inl UnsupportedSortTarget)" for cur' i
      using that by (rule applyCursor_foreign)
    then show ?thesis by (simp add: fetchCursorPage_error clone_def)
  qed
  have b: "\<exists>cols. sortedColumns qb mainTableName = Inr cols
                   \<and> length cols = length (orderByBasics qb)"
    if "\<forall>s \<in> set (orderByBasics qb). \<exists>v. svalue s = Some v \<and>
           (CHR ''.'' \<notin> set v
            \<or> (\<exists>col. v = mainTableName @ ''.'' @ col \<and> CHR ''.'' \<notin> set mainTableName))"
    using that by (rule sortedColumns_accepts)
  have c: "CHR ''.'' \<notin> set v
      \<longrightarrow> sortColumn mainTableName (Stmt ty g v d) = Inr \<lparr>name = v, direction = d\<rparr>"
    by (simp add: sortColumn_unqualified)
  have d: "CHR ''.'' \<notin> set mainTableName \<and> CHR ''.'' \<notin> set col
      \<longrightarrow> sortColumn mainTableName (Stmt ty g (mainTableName @ ''.'' @ col) d)
            = Inr \<lparr>name = col, direction = d\<rparr>"
    using sortColumn_main [of mainTableName ty g col d] by (simp add: split_dot_no_dot)
  from a b c d show ?thesis by blast
qed


text \<open>
  Claim C6, at a primary table with a schema prefix. The ordering \<open>public.users.name\<close> is
  qualified with the primary table \<open>public.users\<close>, yet it is read back as table
  \<open>public\<close> and column \<open>users\<close> and refused as a joined table's: a column qualified
  with the primary table name is not accepted. The defect is the one of Claim C5.
\<close>

theorem primary_qualified_sort_rejected:
  "sortColumn ''public.users'' (Stmt ''orderByBasic'' ''order'' ''public.users.name'' (Some ''ASC''))
     = Inl UnsupportedSortTarget
   \<and> applyCursor
        \<lparr>statements = [Stmt ''orderByBasic'' ''order'' ''public.users.name'' (Some ''ASC'')],
         single_limit = None\<rparr> None ''public.users'' ''id''
     = (\<lparr>statements = [Stmt ''orderByBasic'' ''order'' ''public.users.name'' (Some ''ASC'')],
          single_limit = None\<rparr>, Inl UnsupportedSortTarget)
   \<and> fetchCursorPage fetch fetchAll
        \<lparr>statements = [Stmt ''orderByBasic'' ''order'' ''public.users.name'' (Some ''ASC'')],
         single_limit = None\<rparr>
        PagerCollection \<lparr>proto_tableName = ''public.users'', proto_idAttribute = None\<rparr> Map.empty
     = Inl UnsupportedSortTarget"
  by (simp add: applyCursor_def implicitSort_def orderByBasics_def
        sortedColumns_def sortColumn_def fetchCursorPage_def decodeCursor_def paginate_def
        query_of_def page_query_def clone_def resolve_idAttribute_def)

lemma fetchCursorPage_applyCursor_error:
  assumes "decodeCursor opts = Inr cur"
    and "applyCursor q cur (proto_tableName M) (resolve_idAttribute M) = (qb, Inl e)"
  shows "fetchCursorPage fetch fetchAll q PagerCollection M opts = Inl e"
  using assms
  by (simp add: fetchCursorPage_def Let_def paginate_def query_of_def page_query_def clone_def)


text \<open>
  Claim C7. With a cursor whose number of values differs from the number of sort columns,
  \<open>applyCursor\<close> fails with \<open>CursorSortMismatch\<close> and the builder holds no group it did
  not hold before, and \<open>fetchCursorPage\<close> fails with it; with equal lengths it succeeds
  and appends the groups of \<open>spec_predicate\<close>, one per sort column; without a cursor it
  appends nothing.
\<close>


theorem cursor_sort_mismatch:
  "(sortedColumns (implicitSort qb m i) m = Inr cols \<and> length (columnValues c) \<noteq> length cols
      \<longrightarrow> applyCursor qb (Some c) m i = (implicitSort qb m i, Inl CursorSortMismatch)
          \<and> (\<forall>w. WhereWrapped w \<in> set (statements (implicitSort qb m i))
                  \<longrightarrow> WhereWrapped w \<in> set (statements qb))
          \<and> (proto_tableName M = m \<and> resolve_idAttribute M = i \<and> decodeCursor opts = Inr (Some c)
               \<longrightarrow> fetchCursorPage fetch fetchAll qb PagerCollection M opts = Inl CursorSortMismatch))
   \<and> (sortedColumns (implicitSort qb m i) m = Inr cols \<and> length (columnValues c) = length cols
      \<longrightarrow> applyCursor qb (Some c) m i =
            ((implicitSort qb m i)
               \<lparr>statements := statements (implicitSort qb m i) @ spec_predicate c cols\<rparr>,
             Inr cols)
          \<and> length (spec_predicate c cols) = length cols \<and> spec_predicate c cols \<noteq> []
          \<and> page_query qb (Some c) m i lim =
              (qb_limit ((implicitSort qb m i)
                 \<lparr>statements := statements (implicitSort qb m i) @ spec_predicate c cols\<rparr>) lim,
               Inr cols))
   \<and> applyCursor qb None m i = (implicitSort qb m i, sortedColumns (implicitSort qb m i) m)
   \<and> (\<forall>w. WhereWrapped w \<in> set (statements (implicitSort qb m i))
            \<longrightarrow> WhereWrapped w \<in> set (statements qb))"
proof -
  have nw: "\<forall>w. WhereWrapped w \<in> set (statements (implicitSort qb m i))
                  \<longrightarrow> WhereWrapped w \<in> set (statements qb)"
    using implicitSort_no_where by blast
  have a: "sortedColumns (implicitSort qb m i) m = Inr cols \<and> length (columnValues c) \<noteq> length cols
      \<longrightarrow> applyCursor qb (Some c) m i = (implicitSort qb m i, Inl CursorSortMismatch)
          \<and> (\<forall>w. WhereWrapped w \<in> set (statements (implicitSort qb m i))
                  \<longrightarrow> WhereWrapped w \<in> set (statements qb))
          \<and> (proto_tableName M = m \<and> resolve_idAttribute M = i \<and> decodeCursor opts = Inr (Some c)
               \<longrightarrow> fetchCursorPage fetch fetchAll qb PagerCollection M opts = Inl CursorSortMismatch)"
  proof (intro impI, elim conjE)
    assume h: "sortedColumns (implicitSort qb m i) m = Inr cols"
      and l: "length (columnValues c) \<noteq> length cols"
    have ac: "applyCursor qb (Some c) m i = (implicitSort qb m i, Inl CursorSortMismatch)"
      using h l by (rule applyCursor_mismatch)
    have f: "proto_tableName M = m \<and> resolve_idAttribute M = i \<and> decodeCursor opts = Inr (Some c)
               \<longrightarrow> fetchCursorPage fetch fetchAll qb PagerCollection M opts = Inl CursorSortMismatch"
      using ac fetchCursorPage_applyCursor_error [of opts "Some c" qb M "implicitSort qb m i" CursorSortMismatch]
      by blast
    from ac nw f show "applyCursor qb (Some c) m i = (implicitSort qb m i, Inl CursorSortMismatch)
          \<and> (\<forall>w. WhereWrapped w \<in> set (statements (implicitSort qb m i))
                  \<longrightarrow> WhereWrapped w \<in> set (statements qb))
          \<and> (proto_tableName M = m \<and> resolve_idAttribute M = i \<and> decodeCursor opts = Inr (Some c)
               \<longrightarrow> fetchCursorPage fetch fetchAll qb PagerCollection M opts = Inl CursorSortMismatch)"
      by (intro conjI)
  qed
  have b: "sortedColumns (implicitSort qb m i) m = Inr cols \<and> length (columnValues c) = length cols
      \<longrightarrow> applyCursor qb (Some c) m i =
            ((implicitSort qb m i)
               \<lparr>statements := statements (implicitSort qb m i) @ spec_predicate c cols\<rparr>,
             Inr cols)
          \<and> length (spec_predicate c cols) = length cols \<and> spec_predicate c cols \<noteq> []
          \<and> page_query qb (Some c) m i lim =
              (qb_limit ((implicitSort qb m i)
                 \<lparr>statements := statements (implicitSort qb m i) @ spec_predicate c cols\<rparr>) lim,
               Inr cols)"
  proof (intro impI, elim conjE)
    assume h: "sortedColumns (implicitSort qb m i) m = Inr cols"
      and l: "length (columnValues c) = length cols"
    have ac: "applyCursor qb (Some c) m i =
            ((implicitSort qb m i)
               \<lparr>statements := statements (implicitSort qb m i) @ spec_predicate c cols\<rparr>,
             Inr cols)"
      using h l by (rule applyCursor_with_cursor)
    have len: "length (spec_predicate c cols) = length cols"
      by (simp add: spec_predicate_def)
    have ne: "spec_predicate c cols \<noteq> []"
      using sortedColumns_nonempty [OF h] by (simp add: spec_predicate_def)
    have pq: "page_query qb (Some c) m i lim =
              (qb_limit ((implicitSort qb m i)
                 \<lparr>statements := statements (implicitSort qb m i) @ spec_predicate c cols\<rparr>) lim,
               Inr cols)"
      using ac by (simp add: page_query_def clone_def)
    from ac len ne pq
    show "applyCursor qb (Some c) m i =
            ((implicitSort qb m i)
               \<lparr>statements := statements (implicitSort qb m i) @ spec_predicate c cols\<rparr>,
             Inr cols)
          \<and> length (spec_predicate c cols) = length cols \<and> spec_predicate c cols \<noteq> []
          \<and> page_query qb (Some c) m i lim =
              (qb_limit ((implicitSort qb m i)
                 \<lparr>statements := statements (implicitSort qb m i) @ spec_predicate c cols\<rparr>) lim,
               Inr cols)"
      by (intro conjI)
  qed
  have n: "applyCursor qb None m i = (implicitSort qb m i, sortedColumns (implicitSort qb m i) m)"
    by (rule applyCursor_no_cursor)
  from a b n nw show ?thesis by (intro conjI)
qed

theorem cursor_sort_mismatch_witness:
  "applyCursor \<lparr>statements = [], single_limit = None\<rparr>
     (Some \<lparr>ctype = After, columnValues = [JNum 1, JNum 2]\<rparr>) ''cars'' ''id''
   = (\<lparr>statements = [Stmt ''orderByBasic'' ''order'' ''cars.id'' None], single_limit = None\<rparr>,
      Inl CursorSortMismatch)
   \<and> applyCursor \<lparr>statements = [], single_limit = None\<rparr>
       (Some \<lparr>ctype = Before, columnValues = [JNum 1]\<rparr>) ''cars'' ''id''
     = (\<lparr>statements = [Stmt ''orderByBasic'' ''order'' ''cars.id'' None,
                        WhereWrapped [WhereBasic ''id'' ''<'' (JNum 1)]],
          single_limit = None\<rparr>,
        Inr [\<lparr>name = ''id'', direction = None\<rparr>])"
proof -
  let ?qb = "\<lparr>statements = [], single_limit = None\<rparr>"
  let ?cols = "[\<lparr>name = ''id'', direction = None\<rparr>]"
  let ?c2 = "\<lparr>ctype = After, columnValues = [JNum 1, JNum 2]\<rparr>"
  let ?c1 = "\<lparr>ctype = Before, columnValues = [JNum 1]\<rparr>"
  have s: "implicitSort ?qb ''cars'' ''id''
             = \<lparr>statements = [Stmt ''orderByBasic'' ''order'' ''cars.id'' None], single_limit = None\<rparr>"
    by (simp add: implicitSort_def orderByBasics_def qb_orderBy_def)
  have h: "sortedColumns (implicitSort ?qb ''cars'' ''id'') ''cars'' = Inr ?cols"
    by (simp add: s sortedColumns_def orderByBasics_def sortColumn_def)
  have h2: "sortedColumns (implicitSort ?qb ''cars'' ''id'') ''cars'' = Inr ?cols
              \<and> length (columnValues ?c2) \<noteq> length ?cols"
    using h by simp
  have h1: "sortedColumns (implicitSort ?qb ''cars'' ''id'') ''cars'' = Inr ?cols
              \<and> length (columnValues ?c1) = length ?cols"
    using h by simp
  have p: "spec_predicate ?c1 ?cols = [WhereWrapped [WhereBasic ''id'' ''<'' (JNum 1)]]"
    by (simp add: spec_predicate_def spec_term_def spec_sign_def)
  have a: "applyCursor ?qb (Some ?c2) ''cars'' ''id''
             = (implicitSort ?qb ''cars'' ''id'', Inl CursorSortMismatch)"
    using cursor_sort_mismatch [where qb = ?qb and m = "''cars''" and i = "''id''"
        and cols = ?cols and c = ?c2, THEN conjunct1, THEN mp, OF h2]
    by (rule conjunct1)
  have b: "applyCursor ?qb (Some ?c1) ''cars'' ''id'' =
            ((implicitSort ?qb ''cars'' ''id'')
               \<lparr>statements := statements (implicitSort ?qb ''cars'' ''id'') @ spec_predicate ?c1 ?cols\<rparr>,
             Inr ?cols)"
    using cursor_sort_mismatch [where qb = ?qb and m = "''cars''" and i = "''id''"
        and cols = ?cols and c = ?c1, THEN conjunct2, THEN conjunct1, THEN mp, OF h1]
    by (rule conjunct1)
  from a b show ?thesis unfolding s p by simp
qed

text \<open>
  Claim C8. For a page that is not empty, \<open>before\<close> holds the attributes named by the sort
  columns read off the first row and \<open>after\<close> those read off the last row, in the order of
  the sort columns; an empty page gives neither cursor. The cursors \<open>fetchCursorPage\<close>
  returns are those of the page it fetched.
\<close>

theorem cursors_from_first_and_last_row:
  "(coll \<noteq> [] \<longrightarrow>
      extractCursors cols coll =
        \<lparr>after = Some (map (\<lambda>col. get (last coll) (name col)) cols),
         before = Some (map (\<lambda>col. get (hd coll) (name col)) cols)\<rparr>)
   \<and> extractCursors cols [] = \<lparr>after = None, before = None\<rparr>
   \<and> (fetchCursorPage fetch fetchAll q pg M opts = Inr p \<longrightarrow>
        (\<exists>cur qb scols. decodeCursor opts = Inr cur
           \<and> page_query q cur (proto_tableName M) (resolve_idAttribute M)
                (ensurePositiveIntWithDefault (option_limit opts) DEFAULT_LIMIT) = (qb, Inr scols)
           \<and> models p = fetch qb (opts(''limit'' := None))
           \<and> cursors (pagination p) = extractCursors scols (models p)))"
  using extractCursors_nonempty [of coll cols] extractCursors_empty [of cols]
    fetchCursorPage_page [of fetch fetchAll q pg M opts p]
  by blast

theorem cursors_from_first_and_last_row_witness:
  "extractCursors [\<lparr>name = ''year'', direction = Some ''DESC''\<rparr>, \<lparr>name = ''id'', direction = None\<rparr>]
     [[(''id'', JNum 7), (''year'', JNum 1999)], [(''id'', JNum 9), (''year'', JNum 1998)],
      [(''id'', JNum 4), (''year'', JNum 1990)]]
   = \<lparr>after = Some [JNum 1990, JNum 4], before = Some [JNum 1999, JNum 7]\<rparr>"
proof -
  have h: "[[(''id'', JNum 7), (''year'', JNum 1999)], [(''id'', JNum 9), (''year'', JNum 1998)],
      [(''id'', JNum 4), (''year'', JNum 1990)]] \<noteq> ([] :: model list)" by simp
  show ?thesis
    using h cursors_from_first_and_last_row [where coll = "[[(''id'', JNum 7), (''year'', JNum 1999)], [(''id'', JNum 9), (''year'', JNum 1998)],
      [(''id'', JNum 4), (''year'', JNum 1990)]]"
      and cols = "[\<lparr>name = ''year'', direction = Some ''DESC''\<rparr>, \<lparr>name = ''id'', direction = None\<rparr>]"]
    by (simp add: get_def)
qed

section \<open>Cursor decoding\<close>

lemma decodeCursor_fails_iff:
  "decodeCursor opts = Inl e \<longleftrightarrow>
     e = InvalidCursorInput \<and>
     ((\<exists>a. opts ''after'' = Some a \<and> \<not> isArray a)
      \<or> (opts ''after'' = None \<and> (\<exists>b. opts ''before'' = Some b \<and> \<not> isArray b)))"
  by (auto simp: decodeCursor_def ensureArray_def split: option.splits if_splits)







section \<open>The row count\<close>

lemma count_then_malformed:
  "\<not> (\<exists>m. result = Some [m] \<and> length (Object_keys m) = 1) \<Longrightarrow>
     count_then result lim = \<lparr>limit = lim, rowCount = NoRowCount\<rparr>"
  by (cases result) (auto simp: count_then_def Let_def length_Suc_conv)

lemma count_then_wellformed:
  "Object_keys m = [k] \<Longrightarrow>
     count_then (Some [m]) lim = \<lparr>limit = lim, rowCount = RowCount (parseInt (get m k))\<rparr>"
  by (simp add: count_then_def Let_def)

lemma count_then_limit: "limit (count_then result lim) = lim"
  by (simp add: count_then_def Let_def split: option.splits)

lemma fetchCursorPage_never_CountUnavailable:
  "fetchCursorPage fetch fetchAll q pg M opts \<noteq> Inl CountUnavailable"
proof
  assume "fetchCursorPage fetch fetchAll q pg M opts = Inl CountUnavailable"
  then consider "decodeCursor opts = Inl CountUnavailable"
    | cur where "snd (applyCursor (clone q) cur (proto_tableName M) (resolve_idAttribute M)) = Inl CountUnavailable"
    unfolding fetchCursorPage_error by (cases pg) auto
  then show False
  proof cases
    case 1
    then show False by (simp add: decodeCursor_fails_iff)
  next
    case 2
    then show False
      by (auto simp: applyCursor_def Let_def sortedColumns_nonempty
               split: sum.splits option.splits if_splits list.splits
               dest: sortedColumns_error)
  qed
qed

text \<open>Whether \<open>fetchCursorPage\<close> fails does not depend on the count.\<close>

lemma fetchCursorPage_error_fetchAll:
  "fetchCursorPage fetch fetchAll q pg M opts = Inl e \<longleftrightarrow>
     fetchCursorPage fetch fetchAll' q pg M opts = Inl e"
  by (simp only: fetchCursorPage_error)

text \<open>
  The page that is returned: the rows and cursors come from the page query, the limit is
  the normalized one, and \<open>rowCount\<close> is read off the count query made from the builder
  that \<open>self.query()\<close> returns once the page has been requested, a fresh one.
\<close>

lemma fetchCursorPage_result:
  assumes "fetchCursorPage fetch fetchAll q pg M opts = Inr p"
  shows "\<exists>cur qb cols.
           decodeCursor opts = Inr cur
         \<and> page_query q cur (proto_tableName M) (resolve_idAttribute M)
              (ensurePositiveIntWithDefault (option_limit opts) DEFAULT_LIMIT) = (qb, Inr cols)
         \<and> p = \<lparr>models = fetch qb (opts(''limit'' := None)),
                 pagination =
                   \<lparr>limit = ensurePositiveIntWithDefault (option_limit opts) DEFAULT_LIMIT,
                    rowCount = rowCount (count fetchAll fresh_builder (proto_tableName M)
                                 (resolve_idAttribute M)
                                 (ensurePositiveIntWithDefault (option_limit opts) DEFAULT_LIMIT)),
                    cursors = extractCursors cols (fetch qb (opts(''limit'' := None)))\<rparr>\<rparr>"
  using assms
  by (auto simp: fetchCursorPage_def Let_def paginate_def query_of_def count_def count_then_limit
           split: pager.splits prod.splits sum.splits)

lemma fetchCursorPage_Inr:
  assumes "decodeCursor opts = Inr cur"
    and "page_query q cur (proto_tableName M) (resolve_idAttribute M)
           (ensurePositiveIntWithDefault (option_limit opts) DEFAULT_LIMIT) = (qb, Inr cols)"
  shows "fetchCursorPage fetch fetchAll q PagerCollection M opts =
           Inr \<lparr>models = fetch qb (opts(''limit'' := None)),
                pagination =
                  \<lparr>limit = ensurePositiveIntWithDefault (option_limit opts) DEFAULT_LIMIT,
                   rowCount = rowCount (count fetchAll fresh_builder (proto_tableName M)
                                (resolve_idAttribute M)
                                (ensurePositiveIntWithDefault (option_limit opts) DEFAULT_LIMIT)),
                   cursors = extractCursors cols (fetch qb (opts(''limit'' := None)))\<rparr>\<rparr>"
  using assms
  by (simp add: fetchCursorPage_def Let_def paginate_def query_of_def count_def count_then_limit)

lemma fetchCursorPage_pager: "fetchCursorPage fetch fetchAll q pg M opts = Inr p \<Longrightarrow> pg = PagerCollection"
  by (cases pg) (auto simp: fetchCursorPage_PagerFunction split: sum.splits)

lemma fetchCursorPage_malformed_count:
  assumes "fetchCursorPage fetch fetchAll q pg M opts = Inr p"
    and "\<not> (\<exists>m. fetchAll' (count_query fresh_builder (proto_tableName M) (resolve_idAttribute M))
                   = Some [m] \<and> length (Object_keys m) = 1)"
  shows "\<exists>p'. fetchCursorPage fetch fetchAll' q pg M opts = Inr p'
             \<and> models p' = models p
             \<and> cursors (pagination p') = cursors (pagination p)
             \<and> limit (pagination p') = limit (pagination p)
             \<and> rowCount (pagination p') = NoRowCount"
proof -
  obtain cur qb cols where dc: "decodeCursor opts = Inr cur"
    and pq: "page_query q cur (proto_tableName M) (resolve_idAttribute M)
              (ensurePositiveIntWithDefault (option_limit opts) DEFAULT_LIMIT) = (qb, Inr cols)"
    and p: "p = \<lparr>models = fetch qb (opts(''limit'' := None)),
                 pagination =
                   \<lparr>limit = ensurePositiveIntWithDefault (option_limit opts) DEFAULT_LIMIT,
                    rowCount = rowCount (count fetchAll fresh_builder (proto_tableName M)
                                 (resolve_idAttribute M)
                                 (ensurePositiveIntWithDefault (option_limit opts) DEFAULT_LIMIT)),
                    cursors = extractCursors cols (fetch qb (opts(''limit'' := None)))\<rparr>\<rparr>"
    using fetchCursorPage_result [OF assms(1)] by blast
  have pg: "pg = PagerCollection" using assms(1) by (rule fetchCursorPage_pager)
  have rc: "rowCount (count fetchAll' fresh_builder (proto_tableName M) (resolve_idAttribute M)
               (ensurePositiveIntWithDefault (option_limit opts) DEFAULT_LIMIT)) = NoRowCount"
    using count_then_malformed [OF assms(2)] by (simp add: count_def)
  show ?thesis
    using fetchCursorPage_Inr [OF dc pq, of fetch fetchAll'] p pg rc by simp
qed

lemma count_query_statements:
  "statements (count_query q t i)
     = filter (\<lambda>s. stype s \<notin> {''orderByBasic'', ''orderByRaw'', ''groupByBasic'', ''groupByRaw''}
                   \<and> grouping s \<noteq> ''columns'') (statements q)
       @ [CountDistinct (t @ ''.'' @ i)]"
  by (simp add: count_query_def Let_def clone_def qb_countDistinct_def notNeededQueries_def)

lemma count_query_limit: "single_limit (count_query q t i) = single_limit q"
  by (simp add: count_query_def Let_def clone_def qb_countDistinct_def)

lemma count_query_fresh_builder:
  "count_query fresh_builder t i = \<lparr>statements = [CountDistinct (t @ ''.'' @ i)], single_limit = None\<rparr>"
  by (simp add: count_query_def Let_def clone_def qb_countDistinct_def fresh_builder_def)

text \<open>
  Claim C3, as amended. When the count's result is not one row with one column, the row
  counter raises nothing: it returns the metadata with the limit and no \<open>rowCount\<close>. A
  result of one row with one column gives \<open>rowCount\<close> as \<open>parseInt\<close> of that column.
  Whether \<open>fetchCursorPage\<close> fails does not depend on the count's result, and where it
  returns a page it returns the same rows, cursors and limit, without \<open>rowCount\<close>, when
  the count's result is malformed; it never fails with \<open>CountUnavailable\<close>.
\<close>

theorem count_result_handling:
  "(\<not> (\<exists>m. result = Some [m] \<and> length (Object_keys m) = 1)
      \<longrightarrow> count_then result lim = \<lparr>limit = lim, rowCount = NoRowCount\<rparr>)
   \<and> (Object_keys m = [k]
      \<longrightarrow> count_then (Some [m]) lim = \<lparr>limit = lim, rowCount = RowCount (parseInt (get m k))\<rparr>)
   \<and> count fetchAll q t i lim = count_then (fetchAll (count_query q t i)) lim
   \<and> (fetchCursorPage fetch fetchAll q pg M opts = Inl e
        \<longleftrightarrow> fetchCursorPage fetch fetchAll' q pg M opts = Inl e)
   \<and> (fetchCursorPage fetch fetchAll q pg M opts = Inr p
        \<and> \<not> (\<exists>m. fetchAll' (count_query fresh_builder (proto_tableName M) (resolve_idAttribute M))
                    = Some [m] \<and> length (Object_keys m) = 1)
      \<longrightarrow> (\<exists>p'. fetchCursorPage fetch fetchAll' q pg M opts = Inr p'
                \<and> models p' = models p
                \<and> cursors (pagination p') = cursors (pagination p)
                \<and> limit (pagination p') = limit (pagination p)
                \<and> rowCount (pagination p') = NoRowCount))
   \<and> fetchCursorPage fetch fetchAll q pg M opts \<noteq> Inl CountUnavailable"
proof -
  have a: "\<not> (\<exists>m. result = Some [m] \<and> length (Object_keys m) = 1)
      \<longrightarrow> count_then result lim = \<lparr>limit = lim, rowCount = NoRowCount\<rparr>"
    using count_then_malformed [of result lim] by blast
  have b: "Object_keys m = [k]
      \<longrightarrow> count_then (Some [m]) lim = \<lparr>limit = lim, rowCount = RowCount (parseInt (get m k))\<rparr>"
    using count_then_wellformed [of m k lim] by blast
  have c: "count fetchAll q t i lim = count_then (fetchAll (count_query q t i)) lim"
    by (simp add: count_def)
  have d: "fetchCursorPage fetch fetchAll q pg M opts = Inl e
        \<longleftrightarrow> fetchCursorPage fetch fetchAll' q pg M opts = Inl e"
    by (rule fetchCursorPage_error_fetchAll)
  have e: "fetchCursorPage fetch fetchAll q pg M opts = Inr p
        \<and> \<not> (\<exists>m. fetchAll' (count_query fresh_builder (proto_tableName M) (resolve_idAttribute M))
                    = Some [m] \<and> length (Object_keys m) = 1)
      \<longrightarrow> (\<exists>p'. fetchCursorPage fetch fetchAll' q pg M opts = Inr p'
                \<and> models p' = models p
                \<and> cursors (pagination p') = cursors (pagination p)
                \<and> limit (pagination p') = limit (pagination p)
                \<and> rowCount (pagination p') = NoRowCount)"
    using fetchCursorPage_malformed_count [of fetch fetchAll q pg M opts p fetchAll'] by blast
  have f: "fetchCursorPage fetch fetchAll q pg M opts \<noteq> Inl CountUnavailable"
    by (rule fetchCursorPage_never_CountUnavailable)
  from a b c d e f show ?thesis by (intro conjI)
qed

theorem count_result_handling_witness:
  "count_then (Some [[(''a'', JNum 1), (''b'', JNum 2)]]) (Finite 15)
     = \<lparr>limit = Finite 15, rowCount = NoRowCount\<rparr>
   \<and> count_then (Some [[(''count(distinct cars.id)'', JStr ''53'')]]) (Finite 15)
       = \<lparr>limit = Finite 15, rowCount = RowCount (Some (Finite 53))\<rparr>
   \<and> (\<exists>p'. fetchCursorPage (\<lambda>qb fo. [[(''id'', JNum 4)], [(''id'', JNum 8)]]) (\<lambda>qb. Some [])
               \<lparr>statements = [], single_limit = None\<rparr> PagerCollection
               \<lparr>proto_tableName = ''cars'', proto_idAttribute = None\<rparr> Map.empty = Inr p'
           \<and> models p' = [[(''id'', JNum 4)], [(''id'', JNum 8)]]
           \<and> cursors (pagination p') = \<lparr>after = Some [JNum 8], before = Some [JNum 4]\<rparr>
           \<and> limit (pagination p') = Finite 10
           \<and> rowCount (pagination p') = NoRowCount)"
proof -
  let ?q = "\<lparr>statements = [], single_limit = None\<rparr>"
  let ?M = "\<lparr>proto_tableName = ''cars'', proto_idAttribute = None\<rparr>"
  let ?fetch = "\<lambda>(qb :: query_builder) (fo :: options). [[(''id'', JNum 4)], [(''id'', JNum 8)]]"
  let ?fetchAll = "\<lambda>qb :: query_builder. Some [[(''count'', JNum 2)]]"
  let ?fetchAll' = "\<lambda>qb :: query_builder. Some ([] :: model list)"
  let ?p = "\<lparr>models = [[(''id'', JNum 4)], [(''id'', JNum 8)]],
             pagination = \<lparr>limit = Finite 10, rowCount = RowCount (Some (Finite 2)),
                           cursors = \<lparr>after = Some [JNum 8], before = Some [JNum 4]\<rparr>\<rparr>\<rparr>"
  have h1: "\<not> (\<exists>m. Some [[(''a'', JNum 1), (''b'', JNum 2)]] = Some [m] \<and> length (Object_keys m) = 1)"
    by (simp add: Object_keys_def)
  have h2: "Object_keys [(''count(distinct cars.id)'', JStr ''53'')] = [''count(distinct cars.id)'']"
    by (simp add: Object_keys_def)
  have pv: "parseInt (get [(''count(distinct cars.id)'', JStr ''53'')] ''count(distinct cars.id)'')
             = Some (Finite 53)"
    by (simp add: get_def parseInt_eval)
  have a: "count_then (Some [[(''a'', JNum 1), (''b'', JNum 2)]]) (Finite 15)
             = \<lparr>limit = Finite 15, rowCount = NoRowCount\<rparr>"
    using count_result_handling [where result = "Some [[(''a'', JNum 1), (''b'', JNum 2)]]"
        and lim = "Finite 15", THEN conjunct1, THEN mp, OF h1] .
  have b: "count_then (Some [[(''count(distinct cars.id)'', JStr ''53'')]]) (Finite 15)
       = \<lparr>limit = Finite 15,
          rowCount = RowCount (parseInt (get [(''count(distinct cars.id)'', JStr ''53'')]
                                           ''count(distinct cars.id)''))\<rparr>"
    using count_result_handling [where m = "[(''count(distinct cars.id)'', JStr ''53'')]"
        and k = "''count(distinct cars.id)''" and lim = "Finite 15",
        THEN conjunct2, THEN conjunct1, THEN mp, OF h2] .
  have pq: "page_query ?q None ''cars'' ''id'' (Finite 10)
              = (\<lparr>statements = [Stmt ''orderByBasic'' ''order'' ''cars.id'' None],
                  single_limit = Some (Finite 10)\<rparr>,
                 Inr [\<lparr>name = ''id'', direction = None\<rparr>])"
    by (simp add: page_query_def clone_def applyCursor_def implicitSort_def orderByBasics_def
          qb_orderBy_def sortedColumns_def sortColumn_def qb_limit_def)
  have h3: "fetchCursorPage ?fetch ?fetchAll ?q PagerCollection ?M Map.empty = Inr ?p"
    by (simp add: fetchCursorPage_def decodeCursor_def option_limit_def
          ensurePositiveIntWithDefault_def DEFAULT_LIMIT_def resolve_idAttribute_def
          paginate_def query_of_def pq extractCursors_def model2cursor_def get_def
          count_def count_query_fresh_builder count_then_def Object_keys_def parseInt_JNum)
  have h4: "\<not> (\<exists>m. ?fetchAll' (count_query fresh_builder (proto_tableName ?M) (resolve_idAttribute ?M))
                   = Some [m] \<and> length (Object_keys m) = 1)"
    by simp
  have h: "fetchCursorPage ?fetch ?fetchAll ?q PagerCollection ?M Map.empty = Inr ?p
        \<and> \<not> (\<exists>m. ?fetchAll' (count_query fresh_builder (proto_tableName ?M) (resolve_idAttribute ?M))
                    = Some [m] \<and> length (Object_keys m) = 1)"
    using h3 h4 by (rule conjI)
  have c: "\<exists>p'. fetchCursorPage ?fetch ?fetchAll' ?q PagerCollection ?M Map.empty = Inr p'
                \<and> models p' = models ?p
                \<and> cursors (pagination p') = cursors (pagination ?p)
                \<and> limit (pagination p') = limit (pagination ?p)
                \<and> rowCount (pagination p') = NoRowCount"
    using count_result_handling [where fetch = ?fetch and fetchAll = ?fetchAll
        and fetchAll' = ?fetchAll' and q = ?q and pg = PagerCollection and M = ?M
        and opts = Map.empty and p = ?p,
        THEN conjunct2, THEN conjunct2, THEN conjunct2, THEN conjunct2, THEN conjunct1,
        THEN mp, OF h] .
  from a b c show ?thesis unfolding pv by simp
qed

theorem count_malformed_counterexample:
  "fetchCursorPage (\<lambda>qb fo. []) (\<lambda>qb. Some []) \<lparr>statements = [], single_limit = None\<rparr>
     PagerCollection \<lparr>proto_tableName = ''cars'', proto_idAttribute = None\<rparr> Map.empty
   = Inr \<lparr>models = [],
          pagination = \<lparr>limit = Finite 10, rowCount = NoRowCount,
                        cursors = \<lparr>after = None, before = None\<rparr>\<rparr>\<rparr>
   \<and> count (\<lambda>qb. None) \<lparr>statements = [], single_limit = None\<rparr> ''cars'' ''id'' (Finite 10)
       = \<lparr>limit = Finite 10, rowCount = NoRowCount\<rparr>"
  by (simp add: fetchCursorPage_def decodeCursor_def option_limit_def
        ensurePositiveIntWithDefault_def DEFAULT_LIMIT_def resolve_idAttribute_def
        paginate_def query_of_def page_query_def clone_def applyCursor_def implicitSort_def
        orderByBasics_def qb_orderBy_def qb_limit_def sortedColumns_def sortColumn_def
        extractCursors_def count_def count_then_def)

text \<open>
  Claim C4, on a collection whose base query holds a filter. \<open>fetchCursorPage\<close> runs the
  page callback on the builder of \<open>self\<close> and starts the fetch, which resets that builder,
  before \<open>count\<close> asks \<open>self.query()\<close> for it: the count query is made from a fresh
  builder and holds the distinct count alone, the filter of the base query gone. Here the
  engine counts 5 rows under the filter and 7 in the whole table; \<open>rowCount\<close> is 7, where
  the count on a clone of the base query is 5.
\<close>

theorem count_on_reset_builder:
  "fetchCursorPage (\<lambda>qb fo. [])
     (\<lambda>qb. if Stmt ''whereBasic'' ''where'' ''cars.country'' None \<in> set (statements qb)
            then Some [[(''count'', JNum 5)]] else Some [[(''count'', JNum 7)]])
     \<lparr>statements = [Stmt ''whereBasic'' ''where'' ''cars.country'' None], single_limit = None\<rparr>
     PagerCollection \<lparr>proto_tableName = ''cars'', proto_idAttribute = None\<rparr> Map.empty
   = Inr \<lparr>models = [],
          pagination = \<lparr>limit = Finite 10, rowCount = RowCount (Some (Finite 7)),
                        cursors = \<lparr>after = None, before = None\<rparr>\<rparr>\<rparr>
   \<and> count
       (\<lambda>qb. if Stmt ''whereBasic'' ''where'' ''cars.country'' None \<in> set (statements qb)
              then Some [[(''count'', JNum 5)]] else Some [[(''count'', JNum 7)]])
       \<lparr>statements = [Stmt ''whereBasic'' ''where'' ''cars.country'' None], single_limit = None\<rparr>
       ''cars'' ''id'' (Finite 10)
     = \<lparr>limit = Finite 10, rowCount = RowCount (Some (Finite 5))\<rparr>
   \<and> count_query
       \<lparr>statements = [Stmt ''whereBasic'' ''where'' ''cars.country'' None], single_limit = None\<rparr>
       ''cars'' ''id''
     = \<lparr>statements = [Stmt ''whereBasic'' ''where'' ''cars.country'' None, CountDistinct ''cars.id''],
        single_limit = None\<rparr>
   \<and> count_query fresh_builder ''cars'' ''id''
     = \<lparr>statements = [CountDistinct ''cars.id''], single_limit = None\<rparr>"
proof -
  let ?w = "Stmt ''whereBasic'' ''where'' ''cars.country'' None"
  let ?q = "\<lparr>statements = [?w], single_limit = None\<rparr>"
  let ?fetchAll = "\<lambda>qb. if ?w \<in> set (statements qb)
            then Some [[(''count'', JNum 5)]] else Some [[(''count'', JNum 7)]]"
  have cq: "count_query ?q ''cars'' ''id''
     = \<lparr>statements = [?w, CountDistinct ''cars.id''], single_limit = None\<rparr>"
    by (simp add: count_query_def Let_def clone_def qb_countDistinct_def notNeededQueries_def)
  have cf: "count_query fresh_builder ''cars'' ''id''
     = \<lparr>statements = [CountDistinct ''cars.id''], single_limit = None\<rparr>"
    by (simp add: count_query_fresh_builder)
  have c5: "count ?fetchAll ?q ''cars'' ''id'' (Finite 10)
     = \<lparr>limit = Finite 10, rowCount = RowCount (Some (Finite 5))\<rparr>"
    by (simp add: count_def cq count_then_def Object_keys_def get_def parseInt_JNum)
  have c7: "count ?fetchAll fresh_builder ''cars'' ''id'' (Finite 10)
     = \<lparr>limit = Finite 10, rowCount = RowCount (Some (Finite 7))\<rparr>"
    by (simp add: count_def cf count_then_def Object_keys_def get_def parseInt_JNum)
  have pq: "page_query ?q None ''cars'' ''id'' (Finite 10)
              = (\<lparr>statements = [?w, Stmt ''orderByBasic'' ''order'' ''cars.id'' None],
                  single_limit = Some (Finite 10)\<rparr>,
                 Inr [\<lparr>name = ''id'', direction = None\<rparr>])"
    by (simp add: page_query_def clone_def applyCursor_def implicitSort_def orderByBasics_def
          qb_orderBy_def sortedColumns_def sortColumn_def qb_limit_def)
  have f: "fetchCursorPage (\<lambda>qb fo. []) ?fetchAll ?q
     PagerCollection \<lparr>proto_tableName = ''cars'', proto_idAttribute = None\<rparr> Map.empty
   = Inr \<lparr>models = [],
          pagination = \<lparr>limit = Finite 10, rowCount = RowCount (Some (Finite 7)),
                        cursors = \<lparr>after = None, before = None\<rparr>\<rparr>\<rparr>"
    by (simp add: fetchCursorPage_def decodeCursor_def option_limit_def
          ensurePositiveIntWithDefault_def DEFAULT_LIMIT_def resolve_idAttribute_def
          paginate_def query_of_def pq extractCursors_def c7)
  from f c5 cq cf show ?thesis by (intro conjI)
qed

end
